theory Spec2Isabelle
  imports Main "HOL-Library.Multiset"
begin

section \<open>Cell values and tables\<close>

text \<open>
  The script \<^verbatim>\<open>scripts/fetch-osm-streets.py\<close> moves one table of street segments
  from a road graph to a GeoJSON file.  A cell of that table holds a Python object: a
  missing value (NaN or None), a string, a number, a boolean, a line geometry or a list
  of such objects.  Coordinates and numbers are kept as integers (fixed point); no
  statement below depends on floating-point arithmetic.
\<close>

type_synonym point = "int \<times> int"

datatype cell =
    VNull
  | VStr string
  | VNum int
  | VBool bool
  | VGeom "point list"
  | VList "cell list"

datatype error =
    KeyError
  | AttributeError
  | TypeError
  | FileExistsError
  | NotADirectoryError
  | IsADirectoryError
  | FileNotFoundError
  | Upstream string

text \<open>Python's \<^verbatim>\<open>isinstance(v, list)\<close>, and the items of a list value.\<close>

fun isinstance_list :: "cell \<Rightarrow> bool" where
  "isinstance_list (VList xs) = True"
| "isinstance_list v = False"

fun items :: "cell \<Rightarrow> cell list" where
  "items (VList xs) = xs"
| "items v = []"

text \<open>
  The lambda of lines 62-64:
  \<^verbatim>\<open>lambda v: v[0] if isinstance(v, list) and len(v) > 0 else v\<close>.
  The read \<^verbatim>\<open>v[0]\<close> is guarded by the length test, so it never raises.
\<close>

definition flatten_cell :: "cell \<Rightarrow> cell" where
  "flatten_cell v =
     (if isinstance_list v \<and> length (items v) > 0 then hd (items v) else v)"

text \<open>
  A data frame, column by column as pandas stores it: the row index and the ordered
  columns, each a series with one cell per row.  The index of the edge table that the
  graph library returns is the multi-index (u, v, key); after
  \<^verbatim>\<open>reset_index(drop=True)\<close> it is the range 0, 1, ...
\<close>

datatype label = Edge_key int int int | Row nat

type_synonym series = "cell list"

record gdf =
  index :: "label list"
  cols :: "(string \<times> series) list"

definition columns :: "gdf \<Rightarrow> string list" where
  "columns df = map fst (cols df)"

text \<open>\<^verbatim>\<open>len(df)\<close> is the number of rows.\<close>

definition len_gdf :: "gdf \<Rightarrow> nat" where
  "len_gdf df = length (index df)"

text \<open>\<^verbatim>\<open>df[col]\<close> for one label: the series, or KeyError.\<close>

definition getitem :: "gdf \<Rightarrow> string \<Rightarrow> error + series" where
  "getitem df col = (case map_of (cols df) col of None \<Rightarrow> Inl KeyError | Some s \<Rightarrow> Inr s)"

text \<open>\<^verbatim>\<open>df[[c1, c2, ...]]\<close>: the listed columns in the listed order, KeyError when
  one is missing.\<close>

fun select_cols :: "(string \<times> series) list \<Rightarrow> string list \<Rightarrow> error + (string \<times> series) list" where
  "select_cols d [] = Inr []"
| "select_cols d (c # cs) =
     (case map_of d c of
        None \<Rightarrow> Inl KeyError
      | Some s \<Rightarrow>
          (case select_cols d cs of
             Inl e \<Rightarrow> Inl e
           | Inr r \<Rightarrow> Inr ((c, s) # r)))"

definition getitem_list :: "gdf \<Rightarrow> string list \<Rightarrow> error + gdf" where
  "getitem_list df cs =
     (case select_cols (cols df) cs of
        Inl e \<Rightarrow> Inl e
      | Inr r \<Rightarrow> Inr (df\<lparr>cols := r\<rparr>))"

text \<open>\<^verbatim>\<open>df[col] = s\<close>: an existing column is replaced where it stands, a new one is
  appended.\<close>

fun set_col :: "(string \<times> series) list \<Rightarrow> string \<Rightarrow> series \<Rightarrow> (string \<times> series) list" where
  "set_col [] c s = [(c, s)]"
| "set_col ((k, v) # d) c s = (if k = c then (c, s) # d else (k, v) # set_col d c s)"

definition setitem :: "gdf \<Rightarrow> string \<Rightarrow> series \<Rightarrow> gdf" where
  "setitem df col s = df\<lparr>cols := set_col (cols df) col s\<rparr>"

text \<open>\<^verbatim>\<open>Series.apply(f)\<close>: f on every cell.\<close>

definition apply_series :: "(cell \<Rightarrow> cell) \<Rightarrow> series \<Rightarrow> series" where
  "apply_series f s = map f s"

text \<open>\<^verbatim>\<open>reset_index(drop=True)\<close>: the old index is dropped for 0 .. n-1.\<close>

definition reset_index :: "gdf \<Rightarrow> gdf" where
  "reset_index df = df\<lparr>index := map Row [0..<length (index df)]\<rparr>"

section \<open>Column selection and flattening (lines 51-64)\<close>

definition keep_cols :: "string list" where
  "keep_cols = [''geometry'', ''name'', ''highway'', ''lanes'', ''maxspeed'', ''oneway'', ''length'']"

text \<open>Line 52: \<^verbatim>\<open>[c for c in keep_cols if c in edges_gdf.columns]\<close>.\<close>

definition available :: "gdf \<Rightarrow> string list" where
  "available edges_gdf = filter (\<lambda>c. c \<in> set (columns edges_gdf)) keep_cols"

text \<open>
  The loop of lines 59-64 over the column labels: the geometry column is skipped, every
  other column is read, mapped through the lambda and stored back.
\<close>

fun flatten_loop :: "string list \<Rightarrow> gdf \<Rightarrow> error + gdf" where
  "flatten_loop [] df = Inr df"
| "flatten_loop (col # rest) df =
     (if col = ''geometry'' then flatten_loop rest df
      else
        (case getitem df col of
           Inl e \<Rightarrow> Inl e
         | Inr s \<Rightarrow> flatten_loop rest (setitem df col (apply_series flatten_cell s))))"

text \<open>
  The value of the variable \<^verbatim>\<open>streets_gdf\<close> when line 64 is done, from the edge
  table of line 47 (\<^verbatim>\<open>.copy()\<close> is the identity on values).
\<close>

definition streets_gdf :: "gdf \<Rightarrow> error + gdf" where
  "streets_gdf edges_gdf =
     (case getitem_list edges_gdf (available edges_gdf) of
        Inl e \<Rightarrow> Inl e
      | Inr selected \<Rightarrow>
          (let df = reset_index selected in flatten_loop (columns df) df))"

text \<open>
  The column that selection and flattening leave under a label: the geometry column as it
  was, every other column mapped through the lambda.
\<close>

definition flat_col :: "gdf \<Rightarrow> string \<Rightarrow> series" where
  "flat_col df c =
     (if c = ''geometry'' then the (map_of (cols df) c)
      else map flatten_cell (the (map_of (cols df) c)))"

section \<open>The road graph and its edge table\<close>

text \<open>
  The graph that \<^verbatim>\<open>ox.graph_from_bbox\<close> returns: a multigraph whose nodes carry
  coordinates and whose edges (u, v, key) carry a dictionary of tags and, when the
  segment was simplified, a line geometry.
\<close>

record edge =
  src :: int
  dst :: int
  ekey :: int
  line :: "point list option"
  attrs :: "(string \<times> cell) list"

record graph =
  nodes :: "int list"
  coord :: "int \<Rightarrow> point"
  edges :: "edge list"

definition number_of_nodes :: "graph \<Rightarrow> nat" where
  "number_of_nodes G = length (nodes G)"

definition number_of_edges :: "graph \<Rightarrow> nat" where
  "number_of_edges G = length (edges G)"

text \<open>Distinct elements in the order of their first occurrence.\<close>

fun first_seen :: "'a list \<Rightarrow> 'a list" where
  "first_seen [] = []"
| "first_seen (x # xs) = x # filter (\<lambda>y. y \<noteq> x) (first_seen xs)"

text \<open>
  Modelled from the spec: \<^verbatim>\<open>ox.graph_to_gdfs(G)\<close>, a function of the graph
  library whose code is not part of the script.  Its contract for the edge table (a
  street segment record is derived 1:1 from each graph edge, with a required line
  geometry and optional attributes): one row per edge, indexed by (u, v, key);
  one column per tag that some edge carries, holding the tag's value or a missing value
  where the edge has none; and a geometry column that holds the edge's own line or, for
  an edge without one, the straight segment between its end nodes.
\<close>

definition edge_geometry :: "graph \<Rightarrow> edge \<Rightarrow> cell" where
  "edge_geometry G e =
     VGeom (case line e of Some g \<Rightarrow> g | None \<Rightarrow> [coord G (src e), coord G (dst e)])"

definition edge_attr :: "edge \<Rightarrow> string \<Rightarrow> cell" where
  "edge_attr e c = (case map_of (attrs e) c of None \<Rightarrow> VNull | Some v \<Rightarrow> v)"

definition graph_to_gdfs :: "graph \<Rightarrow> gdf" where
  "graph_to_gdfs G =
     \<lparr>index = map (\<lambda>e. Edge_key (src e) (dst e) (ekey e)) (edges G),
      cols = set_col
               (map (\<lambda>c. (c, map (\<lambda>e. edge_attr e c) (edges G)))
                    (first_seen (concat (map (\<lambda>e. map fst (attrs e)) (edges G)))))
               ''geometry''
               (map (edge_geometry G) (edges G))\<rparr>"

section \<open>Features, the file system and the console\<close>

text \<open>
  Modelled from the spec: \<^verbatim>\<open>to_file(path, driver="GeoJSON")\<close>, a method of the
  table library whose code is not part of the script.  Its contract: one feature per
  row; the geometry column becomes the feature's geometry, the other columns its
  properties, in column order.
\<close>

record feature =
  geometry :: cell
  properties :: "(string \<times> cell) list"

definition row_cells :: "(string \<times> series) list \<Rightarrow> nat \<Rightarrow> (string \<times> cell) list" where
  "row_cells d i = map (\<lambda>(c, s). (c, s ! i)) d"

definition feature_of_row :: "(string \<times> series) list \<Rightarrow> nat \<Rightarrow> feature" where
  "feature_of_row d i =
     \<lparr>geometry = (case map_of (row_cells d i) ''geometry'' of None \<Rightarrow> VNull | Some g \<Rightarrow> g),
      properties = filter (\<lambda>(c, v). c \<noteq> ''geometry'') (row_cells d i)\<rparr>"

definition features :: "gdf \<Rightarrow> feature list" where
  "features df = map (feature_of_row (cols df)) [0..<len_gdf df]"

text \<open>
  The file system: a path is its list of components from the root, an entry a directory
  or a file holding a feature collection.  The root always exists.
\<close>

type_synonym path = "string list"

datatype entry = Dir | File "feature list"

type_synonym filesystem = "path \<Rightarrow> entry option"

text \<open>
  \<^verbatim>\<open>os.makedirs(p, exist_ok=True)\<close>: every missing directory on the way to p is
  created; a directory that exists is accepted; a file in the way raises.  The first
  argument of the walk is the prefix already known to be a directory.
\<close>

fun mkdir_walk :: "path \<Rightarrow> path \<Rightarrow> filesystem \<Rightarrow> error + filesystem" where
  "mkdir_walk pre [] fs = Inr fs"
| "mkdir_walk pre (d # ds) fs =
     (case fs (pre @ [d]) of
        None \<Rightarrow> mkdir_walk (pre @ [d]) ds (fs(pre @ [d] \<mapsto> Dir))
      | Some Dir \<Rightarrow> mkdir_walk (pre @ [d]) ds fs
      | Some (File x) \<Rightarrow> Inl (if ds = [] then FileExistsError else NotADirectoryError))"

definition makedirs :: "path \<Rightarrow> filesystem \<Rightarrow> error + filesystem" where
  "makedirs p fs = mkdir_walk [] p fs"

text \<open>
  No regular file stands where \<^verbatim>\<open>makedirs\<close> needs a directory: no non-empty
  prefix of the path is a file.
\<close>

definition no_file_on :: "filesystem \<Rightarrow> path \<Rightarrow> bool" where
  "no_file_on fs p =
     list_all (\<lambda>n. case fs (take n p) of Some (File x) \<Rightarrow> False | _ \<Rightarrow> True)
       [1..<Suc (length p)]"

definition is_dir :: "filesystem \<Rightarrow> path \<Rightarrow> bool" where
  "is_dir fs p = (p = [] \<or> fs p = Some Dir)"

text \<open>
  Modelled from the spec: the failures of \<^verbatim>\<open>to_file\<close>.  A frame without a
  geometry column is a plain data frame, which has no such method; the parent directory
  must exist, and the path must not be a directory.  Otherwise the file at the path is
  replaced by the features of the table, whatever their property values are.
\<close>

definition to_file :: "gdf \<Rightarrow> path \<Rightarrow> filesystem \<Rightarrow> error + filesystem" where
  "to_file df p fs =
     (if ''geometry'' \<notin> set (columns df) then Inl AttributeError
      else if \<not> is_dir fs (butlast p) then Inl FileNotFoundError
      else if is_dir fs p then Inl IsADirectoryError
      else Inr (fs(p \<mapsto> File (features df))))"

text \<open>Some property cell of the table is a list.\<close>

definition has_list_cell :: "gdf \<Rightarrow> bool" where
  "has_list_cell df =
     list_ex (\<lambda>(c, s). c \<noteq> ''geometry'' \<and> list_ex isinstance_list s) (cols df)"

text \<open>
  Modelled from the spec: \<^verbatim>\<open>Series.value_counts()\<close>, a method of the table
  library whose code is not part of the script (a descending frequency breakdown of the
  distinct values): missing values are dropped, every distinct value is
  counted, and the pairs are listed by descending count.  A list cell is unhashable and
  raises TypeError.
\<close>

definition value_counts :: "series \<Rightarrow> error + (cell \<times> nat) list" where
  "value_counts s =
     (if list_ex isinstance_list s then Inl TypeError
      else
        (let vs = filter (\<lambda>v. v \<noteq> VNull) s
         in Inr (sort_key (\<lambda>(v, n). - int n) (map (\<lambda>v. (v, count_list vs v)) (first_seen vs)))))"

text \<open>
  One constructor per \<^verbatim>\<open>print\<close> call of the script, carrying the values it
  formats; the number formats themselves are not modelled.
\<close>

datatype out_line =
    Fetching_bbox
  | Bbox_values
  | Blank
  | Downloaded nat nat
  | Wrote nat
  | Abs_path path
  | Size_mb path
  | Street_types
  | Type_count cell nat

record world =
  files :: filesystem
  stdout :: "out_line list"

definition print :: "out_line list \<Rightarrow> world \<Rightarrow> world" where
  "print ls w = w\<lparr>stdout := stdout w @ ls\<rparr>"

section \<open>The script\<close>

text \<open>
  Lines 25-26.  \<^verbatim>\<open>os.path.dirname(__file__)\<close> is a parameter, the directory that
  holds the script; the step \<^verbatim>\<open>..\<close> leaves it for its parent.
\<close>

definition OUTPUT_DIR :: "path \<Rightarrow> path" where
  "OUTPUT_DIR script_dir = butlast script_dir @ [''public'', ''assets'', ''data'']"

definition OUTPUT_FILE :: "path \<Rightarrow> path" where
  "OUTPUT_FILE script_dir = OUTPUT_DIR script_dir @ [''harbor-streets.geojson'']"

text \<open>
  Lines 79-84: the breakdown of road classes, printed only when the table has a highway
  column.
\<close>

definition report_highway :: "gdf \<Rightarrow> world \<Rightarrow> (error + unit) \<times> world" where
  "report_highway df w =
     (if ''highway'' \<in> set (columns df) then
        (case getitem df ''highway'' of
           Inl e \<Rightarrow> (Inl e, print [Street_types] w)
         | Inr s \<Rightarrow>
             (case value_counts s of
                Inl e \<Rightarrow> (Inl e, print [Street_types] w)
              | Inr counts \<Rightarrow>
                  (Inr (), print (Street_types # map (\<lambda>(htype, count). Type_count htype count) counts) w)))
      else (Inr (), w))"

text \<open>
  \<^verbatim>\<open>fetch_streets()\<close>, lines 29-84.  The answer of the data provider is a
  parameter: the graph, or the exception that \<^verbatim>\<open>ox.graph_from_bbox\<close> raises.  An
  exception ends the function where it is raised, with the state reached so far.
\<close>

definition fetch_streets :: "path \<Rightarrow> error + graph \<Rightarrow> world \<Rightarrow> (error + unit) \<times> world" where
  "fetch_streets script_dir upstream w0 =
     (let w1 = print [Fetching_bbox, Bbox_values, Blank] w0 in
      case upstream of
        Inl e \<Rightarrow> (Inl e, w1)
      | Inr G \<Rightarrow>
          (let node_count = number_of_nodes G;
               edge_count = number_of_edges G;
               w2 = print [Downloaded node_count edge_count] w1;
               edges_gdf = graph_to_gdfs G
           in case streets_gdf edges_gdf of
                Inl e \<Rightarrow> (Inl e, w2)
              | Inr df \<Rightarrow>
                  (case makedirs (OUTPUT_DIR script_dir) (files w2) of
                     Inl e \<Rightarrow> (Inl e, w2)
                   | Inr fs1 \<Rightarrow>
                       (case to_file df (OUTPUT_FILE script_dir) fs1 of
                          Inl e \<Rightarrow> (Inl e, w2\<lparr>files := fs1\<rparr>)
                        | Inr fs2 \<Rightarrow>
                            (let feature_count = len_gdf df;
                                 w3 = print [Wrote feature_count,
                                             Abs_path (OUTPUT_FILE script_dir),
                                             Size_mb (OUTPUT_FILE script_dir)]
                                        (w2\<lparr>files := fs2\<rparr>)
                             in report_highway df w3)))))"

text \<open>
  Lines 87-88: an exception that leaves \<^verbatim>\<open>fetch_streets\<close> is caught nowhere, so
  the interpreter ends with status 1; a normal return ends with status 0.
\<close>

definition exit_status :: "(error + unit) \<times> world \<Rightarrow> nat" where
  "exit_status r = (case fst r of Inl e \<Rightarrow> 1 | Inr u \<Rightarrow> 0)"

section \<open>Example inputs\<close>

text \<open>
  The mocked graph of the specification's scenario: three edges, the first tagged with
  two road classes, the second with one, the third with none.
\<close>

definition scenario_graph :: graph where
  "scenario_graph =
     \<lparr>nodes = [1, 2, 3],
      coord = (\<lambda>n. (n, 2 * n)),
      edges =
        [\<lparr>src = 1, dst = 2, ekey = 0, line = Some [(1, 2), (2, 3), (2, 4)],
          attrs = [(''highway'', VList [VStr ''residential'', VStr ''tertiary''])]\<rparr>,
         \<lparr>src = 2, dst = 3, ekey = 0, line = None,
          attrs = [(''highway'', VStr ''primary'')]\<rparr>,
         \<lparr>src = 3, dst = 1, ekey = 0, line = None, attrs = []\<rparr>]\<rparr>"

text \<open>The same edges, listed in another order.\<close>

definition scenario_graph_reordered :: graph where
  "scenario_graph_reordered = scenario_graph\<lparr>edges := rev (edges scenario_graph)\<rparr>"

text \<open>One edge whose road class is the empty list.\<close>

definition empty_tag_graph :: graph where
  "empty_tag_graph =
     \<lparr>nodes = [1, 2],
      coord = (\<lambda>n. (n, n)),
      edges = [\<lparr>src = 1, dst = 2, ekey = 0, line = None, attrs = [(''highway'', VList [])]\<rparr>]\<rparr>"

text \<open>One edge without any tag.\<close>

definition untagged_graph :: graph where
  "untagged_graph =
     \<lparr>nodes = [1, 2],
      coord = (\<lambda>n. (n, n)),
      edges = [\<lparr>src = 1, dst = 2, ekey = 0, line = None, attrs = []\<rparr>]\<rparr>"

text \<open>Three tagged edges: one primary road, then two residential ones.\<close>

definition counted_graph :: graph where
  "counted_graph =
     \<lparr>nodes = [1, 2, 3],
      coord = (\<lambda>n. (n, n)),
      edges =
        [\<lparr>src = 1, dst = 2, ekey = 0, line = None, attrs = [(''highway'', VStr ''primary'')]\<rparr>,
         \<lparr>src = 2, dst = 3, ekey = 0, line = None, attrs = [(''highway'', VStr ''residential'')]\<rparr>,
         \<lparr>src = 3, dst = 1, ekey = 0, line = None,
          attrs = [(''highway'', VList [VStr ''residential'', VStr ''service''])]\<rparr>]\<rparr>"

text \<open>A checkout at \<^verbatim>\<open>/repo\<close>: the script's directory exists, the output directory
  does not; and a second state that already holds an older output file.\<close>

definition repo_scripts :: path where
  "repo_scripts = [''repo'', ''scripts'']"

definition fresh_world :: world where
  "fresh_world =
     \<lparr>files = [[''repo''] \<mapsto> Dir, [''repo'', ''scripts''] \<mapsto> Dir],
      stdout = []\<rparr>"

definition used_world :: world where
  "used_world =
     \<lparr>files = [[''repo''] \<mapsto> Dir, [''repo'', ''scripts''] \<mapsto> Dir,
               [''repo'', ''public''] \<mapsto> Dir, [''repo'', ''public'', ''assets''] \<mapsto> Dir,
               [''repo'', ''public'', ''assets'', ''data''] \<mapsto> Dir,
               [''repo'', ''public'', ''assets'', ''data'', ''harbor-streets.geojson'']
                 \<mapsto> File []],
      stdout = []\<rparr>"

section \<open>Facts about selection and flattening\<close>

lemma flatten_cell_nonempty: "flatten_cell (VList (x # xs)) = x"
  by (simp add: flatten_cell_def)

lemma flatten_cell_empty: "flatten_cell (VList []) = VList []"
  by (simp add: flatten_cell_def)

lemma flatten_cell_scalar: "\<not> isinstance_list v \<Longrightarrow> flatten_cell v = v"
  by (simp add: flatten_cell_def)

lemma select_cols_ok:
  "set cs \<subseteq> fst ` set d \<Longrightarrow> select_cols d cs = Inr (map (\<lambda>c. (c, the (map_of d c))) cs)"
proof (induction cs)
  case Nil
  then show ?case by simp
next
  case (Cons c cs)
  then have "c \<in> fst ` set d" by simp
  then obtain s where "map_of d c = Some s"
    by (metis domD dom_map_of_conv_image_fst)
  with Cons show ?case by simp
qed

lemma available_subset: "set (available df) \<subseteq> fst ` set (cols df)"
  by (auto simp: available_def columns_def)

lemma distinct_keep_cols: "distinct keep_cols"
  by (simp add: keep_cols_def)

lemma distinct_available: "distinct (available df)"
  by (simp add: available_def distinct_keep_cols)

lemma getitem_list_available:
  "getitem_list df (available df) =
     Inr (df\<lparr>cols := map (\<lambda>c. (c, the (map_of (cols df) c))) (available df)\<rparr>)"
  by (simp add: getitem_list_def select_cols_ok [OF available_subset])

lemma set_col_distinct:
  "distinct (map fst d) \<Longrightarrow> c \<in> fst ` set d \<Longrightarrow>
   set_col d c s = map (\<lambda>(k, v). (k, if k = c then s else v)) d"
proof (induction d)
  case Nil
  then show ?case by simp
next
  case (Cons kv d)
  obtain k v where kv: "kv = (k, v)" by (cases kv)
  show ?case
  proof (cases "k = c")
    case True
    with Cons.prems kv have "c \<notin> fst ` set d" by auto
    then have "map (\<lambda>(k, v). (k, if k = c then s else v)) d = d"
      by (induction d) auto
    with True kv show ?thesis by simp
  next
    case False
    with Cons kv show ?thesis by auto
  qed
qed

lemma map_of_distinct_mem:
  "distinct (map fst d) \<Longrightarrow> (k, v) \<in> set d \<Longrightarrow> map_of d k = Some v"
  by simp

lemma flatten_loop_closed:
  "distinct (map fst (cols df)) \<Longrightarrow> distinct cs \<Longrightarrow> set cs \<subseteq> fst ` set (cols df) \<Longrightarrow>
   flatten_loop cs df =
     Inr (df\<lparr>cols := map (\<lambda>(k, s). (k, if k \<in> set cs \<and> k \<noteq> ''geometry''
                                          then map flatten_cell s else s)) (cols df)\<rparr>)"
proof (induction cs arbitrary: df)
  case Nil
  have "map (\<lambda>(k, s). (k, s)) (cols df) = cols df" by (induction "cols df") auto
  then show ?case by (simp add: case_prod_unfold)
next
  case (Cons col rest)
  show ?case
  proof (cases "col = ''geometry''")
    case True
    with Cons.prems have "''geometry'' \<notin> set rest" by auto
    then have "\<And>k. (k \<in> set (col # rest) \<and> k \<noteq> ''geometry'') = (k \<in> set rest \<and> k \<noteq> ''geometry'')"
      using True by auto
    with Cons True show ?thesis by simp
  next
    case False
    from Cons.prems have mem: "col \<in> fst ` set (cols df)" by simp
    then obtain s where s: "map_of (cols df) col = Some s"
      by (metis domD dom_map_of_conv_image_fst)
    let ?df = "setitem df col (apply_series flatten_cell s)"
    have cols': "cols ?df = map (\<lambda>(k, v). (k, if k = col then map flatten_cell s else v)) (cols df)"
      by (simp add: setitem_def apply_series_def set_col_distinct [OF Cons.prems(1) mem])
    have keys: "map fst (cols ?df) = map fst (cols df)"
      by (simp add: cols' case_prod_unfold comp_def)
    have d': "distinct (map fst (cols ?df))" using Cons.prems(1) keys by simp
    have r: "distinct rest" "set rest \<subseteq> fst ` set (cols ?df)"
      using Cons.prems keys by (auto simp flip: set_map)
    have notin: "col \<notin> set rest" using Cons.prems by simp
    have step: "flatten_loop (col # rest) df = flatten_loop rest ?df"
      using False s by (simp add: getitem_def)
    have "map (\<lambda>(k, s). (k, if k \<in> set rest \<and> k \<noteq> ''geometry'' then map flatten_cell s else s)) (cols ?df)
        = map (\<lambda>(k, s). (k, if k \<in> set (col # rest) \<and> k \<noteq> ''geometry'' then map flatten_cell s else s)) (cols df)"
      unfolding cols' using notin False Cons.prems(1) s
      by (auto simp: case_prod_unfold dest!: map_of_distinct_mem [OF Cons.prems(1), of _ _] )
    then show ?thesis
      unfolding step Cons.IH [OF d' r] by (simp add: setitem_def)
  qed
qed

text \<open>
  Selection and flattening never raise, and their result has a closed form: the available
  preferred columns in preferred order over a fresh range index.
\<close>

lemma streets_gdf_closed:
  "streets_gdf df =
     Inr \<lparr>index = map Row [0..<length (index df)],
          cols = map (\<lambda>c. (c, flat_col df c)) (available df)\<rparr>"
proof -
  let ?sel = "reset_index (df\<lparr>cols := map (\<lambda>c. (c, the (map_of (cols df) c))) (available df)\<rparr>)"
  have c: "cols ?sel = map (\<lambda>c. (c, the (map_of (cols df) c))) (available df)"
    by (simp add: reset_index_def)
  have k: "map fst (cols ?sel) = available df"
    by (simp add: c comp_def)
  have d: "distinct (map fst (cols ?sel))"
    by (simp add: k distinct_available)
  have s: "set (columns ?sel) \<subseteq> fst ` set (cols ?sel)"
    by (simp add: columns_def)
  have dc: "distinct (columns ?sel)"
    using d by (simp add: columns_def)
  have "streets_gdf df = flatten_loop (columns ?sel) ?sel"
    by (simp add: streets_gdf_def getitem_list_available Let_def)
  also have "\<dots> = Inr (?sel\<lparr>cols := map (\<lambda>(k, s). (k, if k \<in> set (columns ?sel) \<and> k \<noteq> ''geometry''
                                          then map flatten_cell s else s)) (cols ?sel)\<rparr>)"
    by (rule flatten_loop_closed [OF d dc s])
  also have "\<dots> = Inr \<lparr>index = map Row [0..<length (index df)],
          cols = map (\<lambda>c. (c, flat_col df c)) (available df)\<rparr>"
    unfolding c by (simp add: reset_index_def columns_def comp_def flat_col_def)
  finally show ?thesis .
qed

lemma columns_streets:
  "streets_gdf df = Inr out \<Longrightarrow> columns out = available df"
  by (auto simp: streets_gdf_closed columns_def comp_def)

lemma index_streets:
  "streets_gdf df = Inr out \<Longrightarrow> index out = map Row [0..<length (index df)]"
  by (auto simp: streets_gdf_closed)

lemma getitem_streets:
  assumes "streets_gdf df = Inr out" "c \<in> set (available df)"
  shows "getitem out c = Inr (flat_col df c)"
proof -
  have "map_of (map (\<lambda>c. (c, flat_col df c)) (available df)) c = Some (flat_col df c)"
    using assms(2) by (simp add: map_of_map_restrict)
  with assms(1) show ?thesis
    by (auto simp: streets_gdf_closed getitem_def)
qed

lemma getitem_in_columns:
  "getitem df c = Inr s \<Longrightarrow> the (map_of (cols df) c) = s"
  by (auto simp: getitem_def split: option.splits)

text \<open>
  Claim C3.  Whatever edge table is fetched, selection and flattening succeed, and the
  columns of the resulting table are exactly the preferred columns that the fetched table
  has: nothing outside the preferred list, and no available preferred column dropped.
\<close>

theorem retained_columns_exact:
  "\<exists>out. streets_gdf edges_gdf = Inr out \<and>
     set (columns out) = set keep_cols \<inter> set (columns edges_gdf) \<and>
     set keep_cols =
       {''geometry'', ''name'', ''highway'', ''lanes'', ''maxspeed'', ''oneway'', ''length''}"
proof -
  obtain out where out: "streets_gdf edges_gdf = Inr out"
    by (simp add: streets_gdf_closed)
  have "set (columns out) = set keep_cols \<inter> set (columns edges_gdf)"
    using columns_streets [OF out] by (auto simp: available_def)
  moreover have "set keep_cols =
       {''geometry'', ''name'', ''highway'', ''lanes'', ''maxspeed'', ''oneway'', ''length''}"
    by (simp add: keep_cols_def)
  ultimately show ?thesis using out by blast
qed

text \<open>
  Claim C10.  The retained columns stand in the order of the preferred list (geometry,
  name, highway, lanes, maxspeed, oneway, length), restricted to the labels the fetched
  table has; the order of the fetched table's columns plays no part.
\<close>

theorem retained_columns_order:
  "\<exists>out. streets_gdf edges_gdf = Inr out \<and>
     columns out = filter (\<lambda>c. c \<in> set (columns edges_gdf))
       [''geometry'', ''name'', ''highway'', ''lanes'', ''maxspeed'', ''oneway'', ''length'']"
proof -
  obtain out where out: "streets_gdf edges_gdf = Inr out"
    by (simp add: streets_gdf_closed)
  from columns_streets [OF out] show ?thesis
    using out by (simp add: available_def keep_cols_def)
qed

section \<open>The flattening step\<close>

lemma flatten_cell_cases:
  "flatten_cell v = (case v of VList (x # xs) \<Rightarrow> x | _ \<Rightarrow> v)"
  by (cases v; simp add: flatten_cell_def split: list.splits)

lemma streets_gdf_total: "\<exists>out. streets_gdf df = Inr out"
  by (simp add: streets_gdf_closed)

lemma flattened_column:
  assumes out: "streets_gdf df = Inr out"
    and c: "c \<in> set (columns out)" "c \<noteq> ''geometry''"
    and s: "getitem df c = Inr s"
  shows "getitem out c = Inr (map flatten_cell s)"
proof -
  from c(1) have "c \<in> set (available df)"
    by (simp add: columns_streets [OF out])
  then have "getitem out c = Inr (flat_col df c)"
    by (rule getitem_streets [OF out])
  with c(2) s show ?thesis
    by (simp add: flat_col_def getitem_in_columns)
qed

lemma scenario_edge_table:
  "graph_to_gdfs scenario_graph =
     \<lparr>index = [Edge_key 1 2 0, Edge_key 2 3 0, Edge_key 3 1 0],
      cols = [(''highway'', [VList [VStr ''residential'', VStr ''tertiary''], VStr ''primary'', VNull]),
              (''geometry'', [VGeom [(1, 2), (2, 3), (2, 4)], VGeom [(2, 4), (3, 6)], VGeom [(3, 6), (1, 2)]])]\<rparr>"
  by (simp add: graph_to_gdfs_def scenario_graph_def edge_attr_def edge_geometry_def)

lemma scenario_streets:
  "streets_gdf (graph_to_gdfs scenario_graph) =
     Inr \<lparr>index = [Row 0, Row 1, Row 2],
          cols = [(''geometry'', [VGeom [(1, 2), (2, 3), (2, 4)], VGeom [(2, 4), (3, 6)], VGeom [(3, 6), (1, 2)]]),
                  (''highway'', [VStr ''residential'', VStr ''primary'', VNull])]\<rparr>"
  by (simp add: streets_gdf_closed scenario_edge_table available_def keep_cols_def columns_def
      flat_col_def flatten_cell_def upt_rec)

lemma empty_tag_edge_table:
  "graph_to_gdfs empty_tag_graph =
     \<lparr>index = [Edge_key 1 2 0],
      cols = [(''highway'', [VList []]), (''geometry'', [VGeom [(1, 1), (2, 2)]])]\<rparr>"
  by (simp add: graph_to_gdfs_def empty_tag_graph_def edge_attr_def edge_geometry_def)

lemma empty_tag_streets:
  "streets_gdf (graph_to_gdfs empty_tag_graph) =
     Inr \<lparr>index = [Row 0],
          cols = [(''geometry'', [VGeom [(1, 1), (2, 2)]]), (''highway'', [VList []])]\<rparr>"
  by (simp add: streets_gdf_closed empty_tag_edge_table available_def keep_cols_def columns_def
      flat_col_def flatten_cell_def)

section \<open>The edge table of a graph\<close>

lemma set_col_same: "map_of (set_col d c s) c = Some s"
  by (induction d c s rule: set_col.induct) auto

lemma set_col_other: "k \<noteq> c \<Longrightarrow> map_of (set_col d c s) k = map_of d k"
  by (induction d c s rule: set_col.induct) auto

lemma set_col_keys: "fst ` set (set_col d c s) = insert c (fst ` set d)"
  by (induction d c s rule: set_col.induct) auto

lemma set_first_seen: "set (first_seen xs) = set xs"
  by (induction xs) auto

lemma edge_table_geometry:
  "getitem (graph_to_gdfs G) ''geometry'' = Inr (map (edge_geometry G) (edges G))"
  by (simp add: getitem_def graph_to_gdfs_def set_col_same)

lemma edge_table_columns:
  "set (columns (graph_to_gdfs G)) =
     insert ''geometry'' (\<Union>e \<in> set (edges G). fst ` set (attrs e))"
proof -
  have "set (columns (graph_to_gdfs G)) = fst ` set (cols (graph_to_gdfs G))"
    by (simp add: columns_def)
  also have "\<dots> = insert ''geometry''
      (set (first_seen (concat (map (\<lambda>e. map fst (attrs e)) (edges G)))))"
    by (simp add: graph_to_gdfs_def set_col_keys image_image)
  also have "\<dots> = insert ''geometry'' (\<Union>e \<in> set (edges G). fst ` set (attrs e))"
    by (simp add: set_first_seen)
  finally show ?thesis .
qed

lemma edge_table_rows: "length (index (graph_to_gdfs G)) = number_of_edges G"
  by (simp add: graph_to_gdfs_def number_of_edges_def)

lemma geometry_available:
  "''geometry'' \<in> set (columns df) \<Longrightarrow> ''geometry'' \<in> set (available df)"
  by (simp add: available_def keep_cols_def)

section \<open>The features of the flattened table\<close>

lemma len_streets: "streets_gdf df = Inr out \<Longrightarrow> len_gdf out = length (index df)"
  by (simp add: len_gdf_def index_streets)

lemma length_features: "length (features df) = len_gdf df"
  by (simp add: features_def)

lemma row_cells_streets:
  "streets_gdf df = Inr out \<Longrightarrow>
   row_cells (cols out) i = map (\<lambda>c. (c, flat_col df c ! i)) (available df)"
  by (auto simp: streets_gdf_closed row_cells_def)

lemma feature_geometry:
  assumes out: "streets_gdf df = Inr out" and g: "''geometry'' \<in> set (columns df)"
  shows "geometry (feature_of_row (cols out) i) = the (map_of (cols df) ''geometry'') ! i"
proof -
  have "map_of (map (\<lambda>c. (c, flat_col df c ! i)) (available df)) ''geometry''
      = Some (flat_col df ''geometry'' ! i)"
    using geometry_available [OF g] by (simp add: map_of_map_restrict)
  then show ?thesis
    by (simp add: feature_of_row_def row_cells_streets [OF out] flat_col_def)
qed

lemma feature_keys:
  assumes out: "streets_gdf df = Inr out"
  shows "map fst (properties (feature_of_row (cols out) i)) =
         filter (\<lambda>c. c \<noteq> ''geometry'') (available df)"
  by (simp add: feature_of_row_def row_cells_streets [OF out] filter_map comp_def
      case_prod_unfold)

lemma geometries_of_features:
  assumes out: "streets_gdf df = Inr out"
    and g: "getitem df ''geometry'' = Inr s"
    and n: "length s = length (index df)"
  shows "map geometry (features out) = s"
proof -
  from g have mem: "''geometry'' \<in> set (columns df)"
    by (auto simp: getitem_def columns_def split: option.splits dest: map_of_SomeD
        intro!: image_eqI [where x = "(''geometry'', s)"])
  have s: "the (map_of (cols df) ''geometry'') = s"
    by (rule getitem_in_columns [OF g])
  have "map geometry (features out) = map (\<lambda>i. s ! i) [0..<length (index df)]"
    by (simp add: features_def len_streets [OF out] feature_geometry [OF out mem] s comp_def)
  also have "\<dots> = s"
    using n by (simp add: map_nth flip: n)
  finally show ?thesis .
qed

lemma keys_of_features:
  assumes out: "streets_gdf df = Inr out" and f: "f \<in> set (features out)"
  shows "map fst (properties f) = filter (\<lambda>c. c \<noteq> ''geometry'') (available df)"
  using f by (auto simp: features_def feature_keys [OF out])

lemma graph_geometries:
  assumes out: "streets_gdf (graph_to_gdfs G) = Inr out"
  shows "map geometry (features out) = map (edge_geometry G) (edges G)"
  by (rule geometries_of_features [OF out edge_table_geometry])
     (simp add: graph_to_gdfs_def)

lemma scenario_features:
  "streets_gdf (graph_to_gdfs scenario_graph) = Inr out \<Longrightarrow>
   features out =
     [\<lparr>geometry = VGeom [(1, 2), (2, 3), (2, 4)], properties = [(''highway'', VStr ''residential'')]\<rparr>,
      \<lparr>geometry = VGeom [(2, 4), (3, 6)], properties = [(''highway'', VStr ''primary'')]\<rparr>,
      \<lparr>geometry = VGeom [(3, 6), (1, 2)], properties = [(''highway'', VNull)]\<rparr>]"
  by (auto simp: scenario_streets features_def len_gdf_def feature_of_row_def row_cells_def upt_rec)

text \<open>
  Claim C5.  For every fetched graph the geometry column is selected, the flattening
  step leaves it as the edge table had it, and every feature handed to the writer carries
  a geometry that is not the missing value.
\<close>

theorem geometry_present_non_null:
  "\<exists>out. streets_gdf (graph_to_gdfs G) = Inr out \<and>
     ''geometry'' \<in> set (columns out) \<and>
     getitem out ''geometry'' = getitem (graph_to_gdfs G) ''geometry'' \<and>
     length (features out) = number_of_edges G \<and>
     (\<forall>f \<in> set (features out). geometry f \<noteq> VNull)"
proof -
  obtain out where out: "streets_gdf (graph_to_gdfs G) = Inr out"
    using streets_gdf_total by blast
  have av: "''geometry'' \<in> set (available (graph_to_gdfs G))"
    by (rule geometry_available) (simp add: edge_table_columns)
  then have mem: "''geometry'' \<in> set (columns out)"
    by (simp add: columns_streets [OF out])
  have same: "getitem out ''geometry'' = getitem (graph_to_gdfs G) ''geometry''"
    using getitem_streets [OF out av] edge_table_geometry [of G]
    by (simp add: flat_col_def getitem_in_columns)
  have len: "length (features out) = number_of_edges G"
    by (simp add: length_features len_streets [OF out] edge_table_rows)
  have "geometry f \<noteq> VNull" if "f \<in> set (features out)" for f
  proof -
    from that have "geometry f \<in> set (map geometry (features out))" by simp
    then show ?thesis
      by (auto simp: graph_geometries [OF out] edge_geometry_def)
  qed
  with out mem same len show ?thesis by blast
qed

theorem geometry_present_non_null_witness:
  "\<exists>out. streets_gdf (graph_to_gdfs scenario_graph) = Inr out \<and>
     map geometry (features out) =
       [VGeom [(1, 2), (2, 3), (2, 4)], VGeom [(2, 4), (3, 6)], VGeom [(3, 6), (1, 2)]] \<and>
     VNull \<notin> set (map geometry (features out))"
proof -
  from geometry_present_non_null [of scenario_graph]
  obtain out where out: "streets_gdf (graph_to_gdfs scenario_graph) = Inr out"
    and nn: "\<forall>f \<in> set (features out). geometry f \<noteq> VNull"
    by blast
  from nn have "VNull \<notin> set (map geometry (features out))" by auto
  with out scenario_features [OF out] show ?thesis by auto
qed

section \<open>Runs of the script\<close>

lemma files_print: "files (print ls w) = files w"
  by (simp add: print_def)

lemma stdout_print: "stdout (print ls w) = stdout w @ ls"
  by (simp add: print_def)

lemma files_report_highway: "files (snd (report_highway df w)) = files w"
  by (simp add: report_highway_def files_print split: sum.splits)

lemma to_file_written:
  "to_file df p fs = Inr fs' \<Longrightarrow> fs' = fs(p \<mapsto> File (features df))"
  by (simp add: to_file_def split: if_splits)

text \<open>The run after a successful fetch, with selection and flattening done.\<close>

lemma fetch_streets_fetched:
  assumes "streets_gdf (graph_to_gdfs G) = Inr df"
  shows "fetch_streets sd (Inr G) w =
     (case makedirs (OUTPUT_DIR sd) (files w) of
        Inl e \<Rightarrow>
          (Inl e, print [Downloaded (number_of_nodes G) (number_of_edges G)]
                    (print [Fetching_bbox, Bbox_values, Blank] w))
      | Inr fs1 \<Rightarrow>
          (case to_file df (OUTPUT_FILE sd) fs1 of
             Inl e \<Rightarrow>
               (Inl e, (print [Downloaded (number_of_nodes G) (number_of_edges G)]
                         (print [Fetching_bbox, Bbox_values, Blank] w))\<lparr>files := fs1\<rparr>)
           | Inr fs2 \<Rightarrow>
               report_highway df
                 (print [Wrote (len_gdf df), Abs_path (OUTPUT_FILE sd), Size_mb (OUTPUT_FILE sd)]
                   ((print [Downloaded (number_of_nodes G) (number_of_edges G)]
                      (print [Fetching_bbox, Bbox_values, Blank] w))\<lparr>files := fs2\<rparr>))))"
  using assms by (simp add: fetch_streets_def Let_def files_print split: sum.splits)

text \<open>A run that returns normally has written the flattened table to the output path.\<close>

lemma normal_return_written:
  assumes run: "fetch_streets sd (Inr G) w = (Inr (), w')"
  shows "\<exists>df. streets_gdf (graph_to_gdfs G) = Inr df \<and>
           files w' (OUTPUT_FILE sd) = Some (File (features df)) \<and>
           Wrote (len_gdf df) \<in> set (stdout w')"
proof -
  obtain df where df: "streets_gdf (graph_to_gdfs G) = Inr df"
    using streets_gdf_total by blast
  from run obtain fs1 fs2 where
    mk: "makedirs (OUTPUT_DIR sd) (files w) = Inr fs1" and
    wr: "to_file df (OUTPUT_FILE sd) fs1 = Inr fs2" and
    rep: "report_highway df
            (print [Wrote (len_gdf df), Abs_path (OUTPUT_FILE sd), Size_mb (OUTPUT_FILE sd)]
              ((print [Downloaded (number_of_nodes G) (number_of_edges G)]
                 (print [Fetching_bbox, Bbox_values, Blank] w))\<lparr>files := fs2\<rparr>)) = (Inr (), w')"
    unfolding fetch_streets_fetched [OF df] by (auto split: sum.splits)
  have "files w' = fs2"
    using files_report_highway [of df] rep by (metis files_print snd_conv world.select_convs(1) world.update_convs(1) world.surjective)
  then have f: "files w' (OUTPUT_FILE sd) = Some (File (features df))"
    using to_file_written [OF wr] by simp
  have "Wrote (len_gdf df) \<in> set (stdout w')"
    using rep by (auto simp: report_highway_def stdout_print print_def split: if_splits sum.splits)
  with df f show ?thesis by blast
qed

text \<open>
  Claim C8.  When the fetch raises, the exception leaves \<^verbatim>\<open>fetch_streets\<close>
  unhandled, the process ends with status 1 (not 0), and the file system is the one the
  run started with: neither \<^verbatim>\<open>makedirs\<close> nor the write is reached, so an older
  output file stays as it was.
\<close>

theorem upstream_failure_leaves_files:
  "fst (fetch_streets script_dir (Inl e) w) = Inl e \<and>
   exit_status (fetch_streets script_dir (Inl e) w) = 1 \<and>
   exit_status (fetch_streets script_dir (Inl e) w) \<noteq> 0 \<and>
   files (snd (fetch_streets script_dir (Inl e) w)) = files w"
  by (simp add: fetch_streets_def exit_status_def files_print)

text \<open>
  Claim C4.  A run that returns normally has written exactly one feature per edge of the
  fetched graph, and reports that number: selection, the index reset and flattening keep
  the rows of the edge table, which has one row per edge.
\<close>

theorem feature_count_is_edge_count:
  assumes "fetch_streets script_dir (Inr G) w = (Inr (), w')"
  shows "\<exists>df. streets_gdf (graph_to_gdfs G) = Inr df \<and>
           len_gdf df = len_gdf (graph_to_gdfs G) \<and>
           files w' (OUTPUT_FILE script_dir) = Some (File (features df)) \<and>
           length (features df) = number_of_edges G \<and>
           Wrote (number_of_edges G) \<in> set (stdout w')"
proof -
  from normal_return_written [OF assms] obtain df where
    df: "streets_gdf (graph_to_gdfs G) = Inr df" and
    f: "files w' (OUTPUT_FILE script_dir) = Some (File (features df))" and
    p: "Wrote (len_gdf df) \<in> set (stdout w')"
    by blast
  have n: "len_gdf df = number_of_edges G"
    by (simp add: len_streets [OF df] edge_table_rows)
  then have "len_gdf df = len_gdf (graph_to_gdfs G)"
    by (simp add: len_gdf_def edge_table_rows)
  with df f p n show ?thesis
    by (auto simp: length_features)
qed

section \<open>Creating the output directory\<close>

text \<open>
  When no regular file stands at a step of the walk, the walk succeeds, leaves a
  directory at every step and changes no other path.
\<close>

lemma mkdir_walk_ok:
  assumes "\<forall>n. 0 < n \<and> n \<le> length ds \<longrightarrow> (\<forall>x. fs (pre @ take n ds) \<noteq> Some (File x))"
  shows "\<exists>fs'. mkdir_walk pre ds fs = Inr fs' \<and>
           (\<forall>n. 0 < n \<and> n \<le> length ds \<longrightarrow> fs' (pre @ take n ds) = Some Dir) \<and>
           (\<forall>q. (\<forall>n. 0 < n \<and> n \<le> length ds \<longrightarrow> q \<noteq> pre @ take n ds) \<longrightarrow> fs' q = fs q)"
  using assms
proof (induction ds arbitrary: pre fs)
  case Nil
  then show ?case by simp
next
  case (Cons d ds)
  let ?p = "pre @ [d]"
  define fs1 where "fs1 = (case fs ?p of None \<Rightarrow> fs(?p \<mapsto> Dir) | Some y \<Rightarrow> fs)"
  from Cons.prems [rule_format, of 1] have nofile: "\<forall>x. fs ?p \<noteq> Some (File x)" by simp
  then have step: "mkdir_walk pre (d # ds) fs = mkdir_walk ?p ds fs1"
    by (cases "fs ?p"; simp add: fs1_def split: entry.splits)
  have dir: "fs1 ?p = Some Dir"
    using nofile by (cases "fs ?p") (auto simp: fs1_def split: entry.splits intro: entry.exhaust)
  have same: "fs1 q = fs q" if "q \<noteq> ?p" for q
    using that by (simp add: fs1_def split: option.splits)
  have pre: "\<forall>n. 0 < n \<and> n \<le> length ds \<longrightarrow> (\<forall>x. fs1 (?p @ take n ds) \<noteq> Some (File x))"
  proof (intro allI impI)
    fix n x assume n: "0 < n \<and> n \<le> length ds"
    then have "?p @ take n ds \<noteq> ?p" by (cases ds) auto
    then have "fs1 (?p @ take n ds) = fs (pre @ take (Suc n) (d # ds))"
      by (simp add: same)
    with Cons.prems [rule_format, of "Suc n"] n show "fs1 (?p @ take n ds) \<noteq> Some (File x)"
      by simp
  qed
  from Cons.IH [OF pre] obtain fs' where
    r: "mkdir_walk ?p ds fs1 = Inr fs'" and
    d: "\<forall>n. 0 < n \<and> n \<le> length ds \<longrightarrow> fs' (?p @ take n ds) = Some Dir" and
    o: "\<forall>q. (\<forall>n. 0 < n \<and> n \<le> length ds \<longrightarrow> q \<noteq> ?p @ take n ds) \<longrightarrow> fs' q = fs1 q"
    by blast
  have notlater: "\<forall>n. 0 < n \<and> n \<le> length ds \<longrightarrow> ?p \<noteq> ?p @ take n ds"
    by (cases ds) auto
  have dirs: "fs' (pre @ take n (d # ds)) = Some Dir" if "0 < n \<and> n \<le> length (d # ds)" for n
  proof (cases n)
    case 0
    with that show ?thesis by simp
  next
    case (Suc m)
    show ?thesis
    proof (cases "m = 0")
      case True
      with Suc o notlater dir show ?thesis by simp
    next
      case False
      with Suc that d [rule_format, of m] show ?thesis by simp
    qed
  qed
  have others: "fs' q = fs q"
    if "\<forall>n. 0 < n \<and> n \<le> length (d # ds) \<longrightarrow> q \<noteq> pre @ take n (d # ds)" for q
  proof -
    from that [rule_format, of 1] have q: "q \<noteq> ?p" by simp
    have "\<forall>n. 0 < n \<and> n \<le> length ds \<longrightarrow> q \<noteq> ?p @ take n ds"
    proof (intro allI impI)
      fix n assume "0 < n \<and> n \<le> length ds"
      with that [rule_format, of "Suc n"] show "q \<noteq> ?p @ take n ds" by simp
    qed
    with o have "fs' q = fs1 q" by blast
    with same [OF q] show ?thesis by simp
  qed
  from r dirs others show ?case
    unfolding step by blast
qed

lemma no_file_onD:
  assumes "no_file_on fs p" "0 < n \<and> n \<le> length p"
  shows "fs (take n p) \<noteq> Some (File x)"
proof -
  from assms(2) have "n \<in> set [1..<Suc (length p)]" by auto
  with assms(1) have "case fs (take n p) of Some (File x) \<Rightarrow> False | _ \<Rightarrow> True"
    unfolding no_file_on_def list_all_iff by blast
  then show ?thesis
    by (auto split: option.splits entry.splits)
qed

lemma makedirs_ok:
  assumes "no_file_on fs p"
  shows "\<exists>fs'. makedirs p fs = Inr fs' \<and>
           (\<forall>n. 0 < n \<and> n \<le> length p \<longrightarrow> fs' (take n p) = Some Dir) \<and>
           (\<forall>q. length p < length q \<longrightarrow> fs' q = fs q)"
proof -
  have "\<forall>n. 0 < n \<and> n \<le> length p \<longrightarrow> (\<forall>x. fs ([] @ take n p) \<noteq> Some (File x))"
    using no_file_onD [OF assms] by simp
  from mkdir_walk_ok [OF this] obtain fs' where
    r: "mkdir_walk [] p fs = Inr fs'" and
    d: "\<forall>n. 0 < n \<and> n \<le> length p \<longrightarrow> fs' ([] @ take n p) = Some Dir" and
    o: "\<forall>q. (\<forall>n. 0 < n \<and> n \<le> length p \<longrightarrow> q \<noteq> [] @ take n p) \<longrightarrow> fs' q = fs q"
    by blast
  have "fs' q = fs q" if "length p < length q" for q
  proof -
    have "\<forall>n. 0 < n \<and> n \<le> length p \<longrightarrow> q \<noteq> [] @ take n p"
      using that by auto
    with o show ?thesis by blast
  qed
  with r d show ?thesis
    by (auto simp: makedirs_def)
qed

lemma OUTPUT_DIR_length: "0 < length (OUTPUT_DIR sd)"
  by (simp add: OUTPUT_DIR_def)




section \<open>Two concrete runs\<close>


lemma output_paths:
  "OUTPUT_DIR repo_scripts = [''repo'', ''public'', ''assets'', ''data'']"
  "OUTPUT_FILE repo_scripts = [''repo'', ''public'', ''assets'', ''data'', ''harbor-streets.geojson'']"
  by (simp_all add: OUTPUT_FILE_def OUTPUT_DIR_def repo_scripts_def)

lemma fresh_world_free:
  "no_file_on (files fresh_world) (OUTPUT_DIR repo_scripts)"
  "files fresh_world (OUTPUT_FILE repo_scripts) \<noteq> Some Dir"
  "files fresh_world (OUTPUT_DIR repo_scripts) = None"
  by (simp_all add: output_paths no_file_on_def fresh_world_def upt_rec)


lemma scenario_value_counts:
  "value_counts [VStr ''residential'', VStr ''primary'', VNull] =
     Inr [(VStr ''residential'', 1), (VStr ''primary'', 1)]"
  by (simp add: value_counts_def)

lemma scenario_run_fresh:
  "fst (fetch_streets repo_scripts (Inr scenario_graph) fresh_world) = Inr ()"
  "stdout (snd (fetch_streets repo_scripts (Inr scenario_graph) fresh_world)) =
     [Fetching_bbox, Bbox_values, Blank, Downloaded 3 3, Wrote 3,
      Abs_path [''repo'', ''public'', ''assets'', ''data'', ''harbor-streets.geojson''],
      Size_mb [''repo'', ''public'', ''assets'', ''data'', ''harbor-streets.geojson''],
      Street_types, Type_count (VStr ''residential'') 1, Type_count (VStr ''primary'') 1]"
  unfolding fetch_streets_fetched [OF scenario_streets]
  by (simp_all add: output_paths makedirs_def
      fresh_world_def to_file_def columns_def has_list_cell_def is_dir_def
      report_highway_def getitem_def scenario_value_counts print_def len_gdf_def
      number_of_nodes_def number_of_edges_def scenario_graph_def)

lemma reordered_edge_table:
  "graph_to_gdfs scenario_graph_reordered =
     \<lparr>index = [Edge_key 3 1 0, Edge_key 2 3 0, Edge_key 1 2 0],
      cols = [(''highway'', [VNull, VStr ''primary'', VList [VStr ''residential'', VStr ''tertiary'']]),
              (''geometry'', [VGeom [(3, 6), (1, 2)], VGeom [(2, 4), (3, 6)], VGeom [(1, 2), (2, 3), (2, 4)]])]\<rparr>"
  by (simp add: graph_to_gdfs_def scenario_graph_reordered_def scenario_graph_def edge_attr_def
      edge_geometry_def)

lemma reordered_streets:
  "streets_gdf (graph_to_gdfs scenario_graph_reordered) =
     Inr \<lparr>index = [Row 0, Row 1, Row 2],
          cols = [(''geometry'', [VGeom [(3, 6), (1, 2)], VGeom [(2, 4), (3, 6)], VGeom [(1, 2), (2, 3), (2, 4)]]),
                  (''highway'', [VNull, VStr ''primary'', VStr ''residential''])]\<rparr>"
  by (simp add: streets_gdf_closed reordered_edge_table available_def keep_cols_def columns_def
      flat_col_def flatten_cell_def upt_rec)

lemma reordered_run_used:
  "fst (fetch_streets repo_scripts (Inr scenario_graph_reordered) used_world) = Inr ()"
  unfolding fetch_streets_fetched [OF reordered_streets]
  by (simp add: output_paths makedirs_def used_world_def to_file_def columns_def
      has_list_cell_def is_dir_def report_highway_def getitem_def value_counts_def)

lemma normal_run: "fst (fetch_streets sd up w) = Inr () \<Longrightarrow>
  fetch_streets sd up w = (Inr (), snd (fetch_streets sd up w))"
  by (cases "fetch_streets sd up w") simp

theorem feature_count_is_edge_count_witness:
  "\<exists>w' df. fetch_streets repo_scripts (Inr scenario_graph) fresh_world = (Inr (), w') \<and>
     number_of_edges scenario_graph = 3 \<and>
     files w' (OUTPUT_FILE repo_scripts) = Some (File (features df)) \<and>
     length (features df) = 3 \<and>
     Wrote 3 \<in> set (stdout w')"
proof -
  let ?w' = "snd (fetch_streets repo_scripts (Inr scenario_graph) fresh_world)"
  have run: "fetch_streets repo_scripts (Inr scenario_graph) fresh_world = (Inr (), ?w')"
    by (rule normal_run) (rule scenario_run_fresh)
  have n: "number_of_edges scenario_graph = 3"
    by (simp add: number_of_edges_def scenario_graph_def)
  from feature_count_is_edge_count [OF run] n run show ?thesis
    by auto
qed


section \<open>The road-class breakdown\<close>

lemma distinct_first_seen: "distinct (first_seen xs)"
  by (induction xs) (auto simp: set_first_seen)

lemma count_list_drop_null:
  "v \<noteq> VNull \<Longrightarrow> count_list (filter (\<lambda>x. x \<noteq> VNull) s) v = count_list s v"
  by (induction s) auto

lemma value_counts_ok:
  assumes "\<not> list_ex isinstance_list s"
  shows "\<exists>counts. value_counts s = Inr counts \<and>
           sorted_wrt (\<lambda>a b. snd a \<ge> snd b) counts \<and>
           distinct (map fst counts) \<and>
           set (map fst counts) = set s - {VNull} \<and>
           (\<forall>(h, n) \<in> set counts. n = count_list s h)"
proof -
  define vs where "vs = filter (\<lambda>v. v \<noteq> VNull) s"
  define xs where "xs = map (\<lambda>v. (v, count_list vs v)) (first_seen vs)"
  define f where "f = (\<lambda>(v :: cell, n :: nat). - int n)"
  define counts where "counts = sort_key f xs"
  have vc: "value_counts s = Inr counts"
    using assms by (simp add: value_counts_def Let_def counts_def xs_def vs_def f_def)
  have keys: "map fst xs = first_seen vs"
    by (simp add: xs_def comp_def)
  have "sorted (map f counts)"
    by (simp add: counts_def)
  then have "sorted_wrt (\<lambda>a b. f a \<le> f b) counts"
    by (simp add: sorted_map)
  then have srt: "sorted_wrt (\<lambda>a b. snd a \<ge> snd b) counts"
    by (rule sorted_wrt_mono_rel [rotated]) (auto simp: f_def)
  have "mset (map fst counts) = mset (map fst xs)"
    by (simp add: counts_def)
  then have dist: "distinct (map fst counts)"
    using distinct_first_seen [of vs] keys by (metis mset_eq_imp_distinct_iff)
  have sc: "set counts = set xs"
    by (simp add: counts_def)
  have "set (map fst counts) = set (map fst xs)"
    by (simp add: sc)
  then have dom: "set (map fst counts) = set s - {VNull}"
    by (auto simp: keys set_first_seen vs_def)
  have "n = count_list s h" if "(h, n) \<in> set counts" for h n
  proof -
    from that have "h \<in> set vs" "n = count_list vs h"
      by (auto simp: sc xs_def set_first_seen)
    then show ?thesis
      by (simp add: vs_def count_list_drop_null)
  qed
  with vc srt dist dom show ?thesis by blast
qed

lemma write_ok:
  assumes "streets_gdf (graph_to_gdfs G) = Inr df"
    and "no_file_on fs (OUTPUT_DIR sd)"
    and "fs (OUTPUT_FILE sd) \<noteq> Some Dir"
  shows "\<exists>fs1 fs2. makedirs (OUTPUT_DIR sd) fs = Inr fs1 \<and>
           to_file df (OUTPUT_FILE sd) fs1 = Inr fs2"
proof -
  let ?d = "OUTPUT_DIR sd" and ?f = "OUTPUT_FILE sd"
  from makedirs_ok [OF assms(2)] obtain fs1 where
    mk: "makedirs ?d fs = Inr fs1" and
    dirs: "\<forall>n. 0 < n \<and> n \<le> length ?d \<longrightarrow> fs1 (take n ?d) = Some Dir" and
    rest: "\<forall>q. length ?d < length q \<longrightarrow> fs1 q = fs q"
    by blast
  from dirs [rule_format, of "length ?d"] have d: "fs1 ?d = Some Dir"
    using OUTPUT_DIR_length [of sd] by simp
  have f: "fs1 ?f = fs ?f"
    using rest by (simp add: OUTPUT_FILE_def)
  have g: "''geometry'' \<in> set (columns df)"
    using columns_streets [OF assms(1)] geometry_available [of "graph_to_gdfs G"]
    by (simp add: edge_table_columns)
  have "to_file df ?f fs1 = Inr (fs1(?f \<mapsto> File (features df)))"
    using g assms(3) d f
    by (simp add: to_file_def is_dir_def OUTPUT_FILE_def)
  with mk show ?thesis by blast
qed

lemma untagged_streets:
  "streets_gdf (graph_to_gdfs untagged_graph) =
     Inr \<lparr>index = [Row 0], cols = [(''geometry'', [VGeom [(1, 1), (2, 2)]])]\<rparr>"
  by (simp add: streets_gdf_closed graph_to_gdfs_def untagged_graph_def edge_geometry_def
      available_def keep_cols_def columns_def flat_col_def)

lemma counted_streets:
  "streets_gdf (graph_to_gdfs counted_graph) =
     Inr \<lparr>index = [Row 0, Row 1, Row 2],
          cols = [(''geometry'', [VGeom [(1, 1), (2, 2)], VGeom [(2, 2), (3, 3)], VGeom [(3, 3), (1, 1)]]),
                  (''highway'', [VStr ''primary'', VStr ''residential'', VStr ''residential''])]\<rparr>"
  by (simp add: streets_gdf_closed graph_to_gdfs_def counted_graph_def edge_geometry_def
      edge_attr_def available_def keep_cols_def columns_def flat_col_def flatten_cell_def upt_rec)

lemma counted_value_counts:
  "value_counts [VStr ''primary'', VStr ''residential'', VStr ''residential''] =
     Inr [(VStr ''residential'', 2), (VStr ''primary'', 1)]"
  by (simp add: value_counts_def)

lemma counted_run_fresh:
  "stdout (snd (fetch_streets repo_scripts (Inr counted_graph) fresh_world)) =
     [Fetching_bbox, Bbox_values, Blank, Downloaded 3 3, Wrote 3,
      Abs_path (OUTPUT_FILE repo_scripts), Size_mb (OUTPUT_FILE repo_scripts),
      Street_types, Type_count (VStr ''residential'') 2, Type_count (VStr ''primary'') 1]"
  unfolding fetch_streets_fetched [OF counted_streets]
  by (simp add: output_paths makedirs_def fresh_world_def to_file_def columns_def is_dir_def
      report_highway_def getitem_def counted_value_counts print_def len_gdf_def
      number_of_nodes_def number_of_edges_def counted_graph_def)

lemma empty_tag_run_fresh:
  "fst (fetch_streets repo_scripts (Inr empty_tag_graph) fresh_world) = Inl TypeError"
  "files (snd (fetch_streets repo_scripts (Inr empty_tag_graph) fresh_world))
     (OUTPUT_FILE repo_scripts) =
     Some (File [\<lparr>geometry = VGeom [(1, 1), (2, 2)], properties = [(''highway'', VList [])]\<rparr>])"
  "stdout (snd (fetch_streets repo_scripts (Inr empty_tag_graph) fresh_world)) =
     [Fetching_bbox, Bbox_values, Blank, Downloaded 2 1, Wrote 1,
      Abs_path (OUTPUT_FILE repo_scripts), Size_mb (OUTPUT_FILE repo_scripts), Street_types]"
  unfolding fetch_streets_fetched [OF empty_tag_streets]
  by (simp_all add: output_paths makedirs_def fresh_world_def to_file_def columns_def is_dir_def
      report_highway_def getitem_def value_counts_def print_def len_gdf_def
      number_of_nodes_def number_of_edges_def empty_tag_graph_def
      features_def feature_of_row_def row_cells_def)

text \<open>
  Claim C9 as stated fails: the run on an edge whose road class is the empty list writes
  its file, the written table has a highway column, and yet the reporter prints the
  header line only and ends with a TypeError, since the list cell cannot be counted.
\<close>

theorem list_cell_stops_breakdown:
  "fst (fetch_streets repo_scripts (Inr empty_tag_graph) fresh_world) = Inl TypeError \<and>
   files (snd (fetch_streets repo_scripts (Inr empty_tag_graph) fresh_world))
     (OUTPUT_FILE repo_scripts) =
     Some (File [\<lparr>geometry = VGeom [(1, 1), (2, 2)], properties = [(''highway'', VList [])]\<rparr>]) \<and>
   stdout (snd (fetch_streets repo_scripts (Inr empty_tag_graph) fresh_world)) =
     [Fetching_bbox, Bbox_values, Blank, Downloaded 2 1, Wrote 1,
      Abs_path (OUTPUT_FILE repo_scripts), Size_mb (OUTPUT_FILE repo_scripts), Street_types]"
  by (intro conjI empty_tag_run_fresh)

text \<open>
  Claim C9, amended.  After a successful write: when the written table has no highway
  column, the run returns normally and nothing follows the size line; when it has one
  and none of its cells is a list, the run returns normally and the header line is
  followed by one line per distinct road class that is not missing, each with the number
  of rows it has, in descending order of that number.
\<close>

theorem highway_breakdown:
  assumes "streets_gdf (graph_to_gdfs G) = Inr df"
    and "makedirs (OUTPUT_DIR script_dir) (files w) = Inr fs1"
    and "to_file df (OUTPUT_FILE script_dir) fs1 = Inr fs2"
  shows "\<exists>r w'. fetch_streets script_dir (Inr G) w = (r, w') \<and>
     (''highway'' \<notin> set (columns df) \<longrightarrow>
        r = Inr () \<and>
        stdout w' = stdout w @
          [Fetching_bbox, Bbox_values, Blank,
           Downloaded (number_of_nodes G) (number_of_edges G),
           Wrote (len_gdf df), Abs_path (OUTPUT_FILE script_dir), Size_mb (OUTPUT_FILE script_dir)]) \<and>
     (\<forall>s. getitem df ''highway'' = Inr s \<and> \<not> list_ex isinstance_list s \<longrightarrow>
        r = Inr () \<and>
        (\<exists>counts.
           stdout w' = stdout w @
             [Fetching_bbox, Bbox_values, Blank,
              Downloaded (number_of_nodes G) (number_of_edges G),
              Wrote (len_gdf df), Abs_path (OUTPUT_FILE script_dir), Size_mb (OUTPUT_FILE script_dir),
              Street_types] @ map (\<lambda>(htype, count). Type_count htype count) counts \<and>
           sorted_wrt (\<lambda>a b. snd a \<ge> snd b) counts \<and>
           distinct (map fst counts) \<and>
           set (map fst counts) = set s - {VNull} \<and>
           (\<forall>(h, n) \<in> set counts. n = count_list s h)))"
proof -
  let ?f = "OUTPUT_FILE script_dir"
  let ?base = "[Fetching_bbox, Bbox_values, Blank,
           Downloaded (number_of_nodes G) (number_of_edges G),
           Wrote (len_gdf df), Abs_path ?f, Size_mb ?f]"
  let ?w3 = "print [Wrote (len_gdf df), Abs_path ?f, Size_mb ?f]
               ((print [Downloaded (number_of_nodes G) (number_of_edges G)]
                  (print [Fetching_bbox, Bbox_values, Blank] w))\<lparr>files := fs2\<rparr>)"
  have run: "fetch_streets script_dir (Inr G) w = report_highway df ?w3"
    by (simp add: fetch_streets_fetched [OF assms(1)] assms(2,3))
  have out3: "stdout ?w3 = stdout w @ ?base"
    by (simp add: print_def)
  obtain r w' where rw: "report_highway df ?w3 = (r, w')"
    by (cases "report_highway df ?w3")
  have absent: "r = Inr () \<and> stdout w' = stdout w @ ?base" if "''highway'' \<notin> set (columns df)"
    using that rw out3 by (auto simp: report_highway_def)
  have present: "r = Inr () \<and>
        (\<exists>counts.
           stdout w' = stdout w @ (?base @ [Street_types]) @
              map (\<lambda>(htype, count). Type_count htype count) counts \<and>
           sorted_wrt (\<lambda>a b. snd a \<ge> snd b) counts \<and>
           distinct (map fst counts) \<and>
           set (map fst counts) = set s - {VNull} \<and>
           (\<forall>(h, n) \<in> set counts. n = count_list s h))"
    if s: "getitem df ''highway'' = Inr s" and nl: "\<not> list_ex isinstance_list s" for s
  proof -
    from s have mem: "''highway'' \<in> set (columns df)"
      by (auto simp: getitem_def columns_def split: option.splits dest: map_of_SomeD
          intro!: image_eqI [where x = "(''highway'', s)"])
    from value_counts_ok [OF nl] obtain counts where
      vc: "value_counts s = Inr counts" and
      p1: "sorted_wrt (\<lambda>a b. snd a \<ge> snd b) counts" and
      p2: "distinct (map fst counts)" and
      p3: "set (map fst counts) = set s - {VNull}" and
      p4: "\<forall>(h, n) \<in> set counts. n = count_list s h"
      by blast
    have rep: "report_highway df ?w3 =
       (Inr (), print (Street_types # map (\<lambda>(htype, count). Type_count htype count) counts) ?w3)"
      using mem s vc by (simp add: report_highway_def)
    from rep rw have r: "r = Inr ()"
      and w': "w' = print (Street_types # map (\<lambda>(htype, count). Type_count htype count) counts) ?w3"
      by simp_all
    have o: "stdout w' = stdout w @ (?base @ [Street_types]) @
              map (\<lambda>(htype, count). Type_count htype count) counts"
      unfolding w' by (simp add: print_def)
    show ?thesis
      by (intro conjI r exI [of _ counts] o p1 p2 p3 p4)
  qed
  show ?thesis
    unfolding run rw
    by (intro exI [of _ r] exI [of _ w'] conjI allI impI refl)
       (use absent present in \<open>simp_all\<close>)
qed

theorem highway_breakdown_witness:
  "\<exists>w1 counts w2.
     fetch_streets repo_scripts (Inr counted_graph) fresh_world = (Inr (), w1) \<and>
     stdout w1 =
       [Fetching_bbox, Bbox_values, Blank, Downloaded 3 3, Wrote 3,
        Abs_path (OUTPUT_FILE repo_scripts), Size_mb (OUTPUT_FILE repo_scripts), Street_types]
       @ map (\<lambda>(htype, count). Type_count htype count) counts \<and>
     counts = [(VStr ''residential'', 2), (VStr ''primary'', 1)] \<and>
     sorted_wrt (\<lambda>a b. snd a \<ge> snd b) counts \<and>
     fetch_streets repo_scripts (Inr untagged_graph) fresh_world = (Inr (), w2) \<and>
     stdout w2 =
       [Fetching_bbox, Bbox_values, Blank, Downloaded 2 1, Wrote 1,
        Abs_path (OUTPUT_FILE repo_scripts), Size_mb (OUTPUT_FILE repo_scripts)]"
proof -
  let ?df1 = "\<lparr>index = [Row 0, Row 1, Row 2],
      cols = [(''geometry'', [VGeom [(1, 1), (2, 2)], VGeom [(2, 2), (3, 3)], VGeom [(3, 3), (1, 1)]]),
              (''highway'', [VStr ''primary'', VStr ''residential'', VStr ''residential''])]\<rparr>"
  let ?df2 = "\<lparr>index = [Row 0], cols = [(''geometry'', [VGeom [(1, 1), (2, 2)]])]\<rparr>"
  let ?s = "[VStr ''primary'', VStr ''residential'', VStr ''residential'']"
  from write_ok [OF counted_streets fresh_world_free(1,2)]
  obtain a1 a2 where a: "makedirs (OUTPUT_DIR repo_scripts) (files fresh_world) = Inr a1"
    "to_file ?df1 (OUTPUT_FILE repo_scripts) a1 = Inr a2"
    by blast
  have hw: "getitem ?df1 ''highway'' = Inr ?s \<and> \<not> list_ex isinstance_list ?s"
    by (simp add: getitem_def)
  from highway_breakdown [OF counted_streets a]
  obtain r1 w1 where t1: "fetch_streets repo_scripts (Inr counted_graph) fresh_world = (r1, w1) \<and>
     (''highway'' \<notin> set (columns ?df1) \<longrightarrow>
        r1 = Inr () \<and>
        stdout w1 = stdout fresh_world @
          [Fetching_bbox, Bbox_values, Blank,
           Downloaded (number_of_nodes counted_graph) (number_of_edges counted_graph),
           Wrote (len_gdf ?df1), Abs_path (OUTPUT_FILE repo_scripts), Size_mb (OUTPUT_FILE repo_scripts)]) \<and>
     (\<forall>s. getitem ?df1 ''highway'' = Inr s \<and> \<not> list_ex isinstance_list s \<longrightarrow>
        r1 = Inr () \<and>
        (\<exists>counts.
           stdout w1 = stdout fresh_world @
             [Fetching_bbox, Bbox_values, Blank,
              Downloaded (number_of_nodes counted_graph) (number_of_edges counted_graph),
              Wrote (len_gdf ?df1), Abs_path (OUTPUT_FILE repo_scripts), Size_mb (OUTPUT_FILE repo_scripts),
              Street_types] @ map (\<lambda>(htype, count). Type_count htype count) counts \<and>
           sorted_wrt (\<lambda>a b. snd a \<ge> snd b) counts \<and>
           distinct (map fst counts) \<and>
           set (map fst counts) = set s - {VNull} \<and>
           (\<forall>(h, n) \<in> set counts. n = count_list s h)))"
    by (elim exE)
  from t1 have run1: "fetch_streets repo_scripts (Inr counted_graph) fresh_world = (r1, w1)" ..
  from t1 [THEN conjunct2, THEN conjunct2, rule_format, OF hw]
  obtain counts where r1: "r1 = Inr ()" and
    o1: "stdout w1 = stdout fresh_world @
             [Fetching_bbox, Bbox_values, Blank,
              Downloaded (number_of_nodes counted_graph) (number_of_edges counted_graph),
              Wrote (len_gdf ?df1), Abs_path (OUTPUT_FILE repo_scripts), Size_mb (OUTPUT_FILE repo_scripts),
              Street_types] @ map (\<lambda>(htype, count). Type_count htype count) counts" and
    s1: "sorted_wrt (\<lambda>a b. snd a \<ge> snd b) counts"
    by (elim exE conjE)
  have o1': "stdout w1 =
       [Fetching_bbox, Bbox_values, Blank, Downloaded 3 3, Wrote 3,
        Abs_path (OUTPUT_FILE repo_scripts), Size_mb (OUTPUT_FILE repo_scripts), Street_types]
       @ map (\<lambda>(htype, count). Type_count htype count) counts"
    using o1 by (simp add: fresh_world_def number_of_nodes_def number_of_edges_def
        counted_graph_def len_gdf_def)
  have "stdout w1 = stdout (snd (fetch_streets repo_scripts (Inr counted_graph) fresh_world))"
    by (simp add: run1)
  with o1' have "map (\<lambda>(htype, count). Type_count htype count) counts =
      [Type_count (VStr ''residential'') 2, Type_count (VStr ''primary'') 1]"
    by (simp add: counted_run_fresh)
  then have c1: "counts = [(VStr ''residential'', 2), (VStr ''primary'', 1)]"
    by (auto simp: map_eq_Cons_conv)
  from write_ok [OF untagged_streets fresh_world_free(1,2)]
  obtain b1 b2 where b: "makedirs (OUTPUT_DIR repo_scripts) (files fresh_world) = Inr b1"
    "to_file ?df2 (OUTPUT_FILE repo_scripts) b1 = Inr b2"
    by blast
  have nh: "''highway'' \<notin> set (columns ?df2)"
    by (simp add: columns_def)
  from highway_breakdown [OF untagged_streets b]
  obtain r2 w2 where t2: "fetch_streets repo_scripts (Inr untagged_graph) fresh_world = (r2, w2) \<and>
     (''highway'' \<notin> set (columns ?df2) \<longrightarrow>
        r2 = Inr () \<and>
        stdout w2 = stdout fresh_world @
          [Fetching_bbox, Bbox_values, Blank,
           Downloaded (number_of_nodes untagged_graph) (number_of_edges untagged_graph),
           Wrote (len_gdf ?df2), Abs_path (OUTPUT_FILE repo_scripts), Size_mb (OUTPUT_FILE repo_scripts)]) \<and>
     (\<forall>s. getitem ?df2 ''highway'' = Inr s \<and> \<not> list_ex isinstance_list s \<longrightarrow>
        r2 = Inr () \<and>
        (\<exists>counts.
           stdout w2 = stdout fresh_world @
             [Fetching_bbox, Bbox_values, Blank,
              Downloaded (number_of_nodes untagged_graph) (number_of_edges untagged_graph),
              Wrote (len_gdf ?df2), Abs_path (OUTPUT_FILE repo_scripts), Size_mb (OUTPUT_FILE repo_scripts),
              Street_types] @ map (\<lambda>(htype, count). Type_count htype count) counts \<and>
           sorted_wrt (\<lambda>a b. snd a \<ge> snd b) counts \<and>
           distinct (map fst counts) \<and>
           set (map fst counts) = set s - {VNull} \<and>
           (\<forall>(h, n) \<in> set counts. n = count_list s h)))"
    by (elim exE)
  from t2 have run2: "fetch_streets repo_scripts (Inr untagged_graph) fresh_world = (r2, w2)" ..
  from t2 [THEN conjunct2, THEN conjunct1, rule_format, OF nh]
  have r2: "r2 = Inr ()" and
    o2: "stdout w2 = stdout fresh_world @
          [Fetching_bbox, Bbox_values, Blank,
           Downloaded (number_of_nodes untagged_graph) (number_of_edges untagged_graph),
           Wrote (len_gdf ?df2), Abs_path (OUTPUT_FILE repo_scripts), Size_mb (OUTPUT_FILE repo_scripts)]"
    by simp_all
  have o2': "stdout w2 =
       [Fetching_bbox, Bbox_values, Blank, Downloaded 2 1, Wrote 1,
        Abs_path (OUTPUT_FILE repo_scripts), Size_mb (OUTPUT_FILE repo_scripts)]"
    using o2 by (simp add: fresh_world_def number_of_nodes_def number_of_edges_def
        untagged_graph_def len_gdf_def)
  have f1: "fetch_streets repo_scripts (Inr counted_graph) fresh_world = (Inr (), w1)"
    using run1 r1 by simp
  have f2: "fetch_streets repo_scripts (Inr untagged_graph) fresh_world = (Inr (), w2)"
    using run2 r2 by simp
  show ?thesis
    by (rule exI [of _ w1], rule exI [of _ counts], rule exI [of _ w2])
       (intro conjI f1 o1' c1 s1 f2 o2')
qed

section \<open>Two runs on one graph\<close>

lemma edge_geometry_coord:
  "coord G1 = coord G2 \<Longrightarrow> edge_geometry G1 = edge_geometry G2"
  by (rule ext) (simp add: edge_geometry_def split: option.splits)

lemma available_same_edges:
  assumes "set (edges G1) = set (edges G2)"
  shows "available (graph_to_gdfs G1) = available (graph_to_gdfs G2)"
  by (simp add: available_def edge_table_columns assms)

lemma key_sets_of_features:
  assumes out: "streets_gdf df = Inr out"
  shows "(\<lambda>f. set (map fst (properties f))) ` set (features out) =
         (if features out = [] then {}
          else {set (filter (\<lambda>c. c \<noteq> ''geometry'') (available df))})"
proof (cases "features out = []")
  case True
  then show ?thesis by simp
next
  case False
  then obtain f where "f \<in> set (features out)"
    by (cases "features out") auto
  then show ?thesis
    using False keys_of_features [OF out] by (auto simp: image_iff)
qed

text \<open>
  Claim C6.  Take two runs that return normally, started in any two states of the file
  system and the console, on the same fetched graph: the same edges with the same node
  coordinates, possibly enumerated in another order.  The two files written have the
  same number of features, the same sets of property keys, and the same geometries up to
  order.
\<close>

theorem two_runs_agree:
  assumes "mset (edges G1) = mset (edges G2)"
    and "coord G1 = coord G2"
    and "fetch_streets script_dir (Inr G1) w1 = (Inr (), w1')"
    and "fetch_streets script_dir (Inr G2) w2 = (Inr (), w2')"
  shows "\<exists>fs1 fs2.
           files w1' (OUTPUT_FILE script_dir) = Some (File fs1) \<and>
           files w2' (OUTPUT_FILE script_dir) = Some (File fs2) \<and>
           length fs1 = length fs2 \<and>
           (\<lambda>f. set (map fst (properties f))) ` set fs1 =
             (\<lambda>f. set (map fst (properties f))) ` set fs2 \<and>
           mset (map geometry fs1) = mset (map geometry fs2)"
proof -
  from normal_return_written [OF assms(3)] obtain df1 where
    df1: "streets_gdf (graph_to_gdfs G1) = Inr df1" and
    f1: "files w1' (OUTPUT_FILE script_dir) = Some (File (features df1))"
    by blast
  from normal_return_written [OF assms(4)] obtain df2 where
    df2: "streets_gdf (graph_to_gdfs G2) = Inr df2" and
    f2: "files w2' (OUTPUT_FILE script_dir) = Some (File (features df2))"
    by blast
  have "length (edges G1) = length (edges G2)"
    using assms(1) by (rule mset_eq_length)
  then have len: "length (features df1) = length (features df2)"
    by (simp add: length_features len_streets [OF df1] len_streets [OF df2] graph_to_gdfs_def)
  have "set (edges G1) = set (edges G2)"
    using assms(1) by (rule mset_eq_setD)
  then have av: "available (graph_to_gdfs G1) = available (graph_to_gdfs G2)"
    by (rule available_same_edges)
  have keys: "(\<lambda>f. set (map fst (properties f))) ` set (features df1) =
              (\<lambda>f. set (map fst (properties f))) ` set (features df2)"
  proof -
    have "(features df1 = []) = (features df2 = [])"
      using len by (metis length_0_conv)
    then show ?thesis
      by (simp only: key_sets_of_features [OF df1] key_sets_of_features [OF df2] av)
  qed
  have "mset (map (edge_geometry G1) (edges G1)) = mset (map (edge_geometry G2) (edges G2))"
    unfolding edge_geometry_coord [OF assms(2)] mset_map
    using assms(1) by (rule arg_cong)
  then have geo: "mset (map geometry (features df1)) = mset (map geometry (features df2))"
    by (simp only: graph_geometries [OF df1] graph_geometries [OF df2])
  from f1 f2 len keys geo show ?thesis by blast
qed

theorem two_runs_agree_witness:
  "\<exists>w1 w2 fs1 fs2.
     fetch_streets repo_scripts (Inr scenario_graph) fresh_world = (Inr (), w1) \<and>
     fetch_streets repo_scripts (Inr scenario_graph_reordered) used_world = (Inr (), w2) \<and>
     edges scenario_graph_reordered \<noteq> edges scenario_graph \<and>
     files fresh_world \<noteq> files used_world \<and>
     files w1 (OUTPUT_FILE repo_scripts) = Some (File fs1) \<and>
     files w2 (OUTPUT_FILE repo_scripts) = Some (File fs2) \<and>
     length fs1 = length fs2 \<and>
     (\<lambda>f. set (map fst (properties f))) ` set fs1 =
       (\<lambda>f. set (map fst (properties f))) ` set fs2 \<and>
     mset (map geometry fs1) = mset (map geometry fs2)"
proof -
  let ?w1 = "snd (fetch_streets repo_scripts (Inr scenario_graph) fresh_world)"
  let ?w2 = "snd (fetch_streets repo_scripts (Inr scenario_graph_reordered) used_world)"
  have r1: "fetch_streets repo_scripts (Inr scenario_graph) fresh_world = (Inr (), ?w1)"
    by (rule normal_run) (rule scenario_run_fresh)
  have r2: "fetch_streets repo_scripts (Inr scenario_graph_reordered) used_world = (Inr (), ?w2)"
    by (rule normal_run) (rule reordered_run_used)
  have m: "mset (edges scenario_graph) = mset (edges scenario_graph_reordered)"
    by (simp add: scenario_graph_reordered_def)
  have c: "coord scenario_graph = coord scenario_graph_reordered"
    by (simp add: scenario_graph_reordered_def)
  have ne: "edges scenario_graph_reordered \<noteq> edges scenario_graph"
    by (simp add: scenario_graph_reordered_def scenario_graph_def)
  have "files fresh_world (OUTPUT_FILE repo_scripts) \<noteq> files used_world (OUTPUT_FILE repo_scripts)"
    by (simp add: output_paths fresh_world_def used_world_def)
  then have nw: "files fresh_world \<noteq> files used_world"
    by auto
  from two_runs_agree [OF m c r1 r2] obtain fs1 fs2 where
    p1: "files ?w1 (OUTPUT_FILE repo_scripts) = Some (File fs1)" and
    p2: "files ?w2 (OUTPUT_FILE repo_scripts) = Some (File fs2)" and
    p3: "length fs1 = length fs2" and
    p4: "(\<lambda>f. set (map fst (properties f))) ` set fs1 =
         (\<lambda>f. set (map fst (properties f))) ` set fs2" and
    p5: "mset (map geometry fs1) = mset (map geometry fs2)"
    by blast
  show ?thesis
    by (rule exI [of _ ?w1], rule exI [of _ ?w2], rule exI [of _ fs1], rule exI [of _ fs2])
       (intro conjI r1 r2 ne nw p1 p2 p3 p4 p5)
qed

section \<open>The flattening step, cell by cell\<close>

lemma empty_tag_features:
  "streets_gdf (graph_to_gdfs empty_tag_graph) = Inr out \<Longrightarrow>
   features out =
     [\<lparr>geometry = VGeom [(1, 1), (2, 2)], properties = [(''highway'', VList [])]\<rparr>]"
  by (auto simp: empty_tag_streets features_def len_gdf_def feature_of_row_def row_cells_def)

lemma flattened_cells:
  assumes out: "streets_gdf df = Inr out"
    and c: "c \<in> set (columns out)" "c \<noteq> ''geometry''"
    and s: "getitem df c = Inr s"
  shows "\<exists>s'. getitem out c = Inr s' \<and> length s' = length s \<and>
           (\<forall>i < length s.
              (s ! i = VList [] \<longrightarrow> s' ! i = VList []) \<and>
              (\<forall>x xs. s ! i = VList (x # xs) \<longrightarrow> s' ! i = x) \<and>
              (\<not> isinstance_list (s ! i) \<longrightarrow> s' ! i = s ! i))"
proof -
  have g: "getitem out c = Inr (map flatten_cell s)"
    by (rule flattened_column [OF out c s])
  show ?thesis
    using g by (auto simp: flatten_cell_empty flatten_cell_nonempty flatten_cell_scalar)
qed

text \<open>
  Claim C1 as stated fails in its scenario: the third edge has no highway tag, yet the
  feature written for it carries the key highway, with the missing value; the property
  is null, not absent.
\<close>

theorem missing_tag_emitted_as_null:
  "streets_gdf (graph_to_gdfs scenario_graph) =
     Inr \<lparr>index = [Row 0, Row 1, Row 2],
          cols = [(''geometry'', [VGeom [(1, 2), (2, 3), (2, 4)], VGeom [(2, 4), (3, 6)], VGeom [(3, 6), (1, 2)]]),
                  (''highway'', [VStr ''residential'', VStr ''primary'', VNull])]\<rparr> \<and>
   map properties
     (features
        \<lparr>index = [Row 0, Row 1, Row 2],
         cols = [(''geometry'', [VGeom [(1, 2), (2, 3), (2, 4)], VGeom [(2, 4), (3, 6)], VGeom [(3, 6), (1, 2)]]),
                 (''highway'', [VStr ''residential'', VStr ''primary'', VNull])]\<rparr>) =
     [[(''highway'', VStr ''residential'')], [(''highway'', VStr ''primary'')], [(''highway'', VNull)]] \<and>
   map_of [(''highway'', VNull)] ''highway'' \<noteq> None"
  using scenario_streets scenario_features [OF scenario_streets] by simp

text \<open>
  Claim C1, amended.  Selection and flattening succeed on every edge table, and in every
  non-geometry column of the result each cell is the lambda's image of the fetched cell:
  the first element of a non-empty list, and the cell itself otherwise (a scalar, a
  missing value).  In the scenario of three edges tagged
  \<^verbatim>\<open>["residential", "tertiary"]\<close>, \<^verbatim>\<open>"primary"\<close> and not at all, the
  highway properties of the three features handed to the writer are residential, primary
  and null: the third feature has the key, with the missing value.
\<close>

theorem flatten_first_element:
  "(\<exists>out. streets_gdf edges_gdf = Inr out \<and>
      (\<forall>c s. c \<in> set (columns out) \<and> c \<noteq> ''geometry'' \<and> getitem edges_gdf c = Inr s \<longrightarrow>
         getitem out c = Inr (map (\<lambda>v. case v of VList (x # xs) \<Rightarrow> x | _ \<Rightarrow> v) s))) \<and>
   (\<exists>out. streets_gdf (graph_to_gdfs scenario_graph) = Inr out \<and>
      getitem out ''highway'' = Inr [VStr ''residential'', VStr ''primary'', VNull] \<and>
      map (\<lambda>f. map_of (properties f) ''highway'') (features out) =
        [Some (VStr ''residential''), Some (VStr ''primary''), Some VNull])"
proof
  obtain out where out: "streets_gdf edges_gdf = Inr out"
    using streets_gdf_total by blast
  have "getitem out c = Inr (map (\<lambda>v. case v of VList (x # xs) \<Rightarrow> x | _ \<Rightarrow> v) s)"
    if "c \<in> set (columns out)" "c \<noteq> ''geometry''" "getitem edges_gdf c = Inr s" for c s
  proof -
    have "map flatten_cell s = map (\<lambda>v. case v of VList (x # xs) \<Rightarrow> x | _ \<Rightarrow> v) s"
      by (rule map_cong [OF refl]) (rule flatten_cell_cases)
    with flattened_column [OF out that] show ?thesis by simp
  qed
  with out show "\<exists>out. streets_gdf edges_gdf = Inr out \<and>
      (\<forall>c s. c \<in> set (columns out) \<and> c \<noteq> ''geometry'' \<and> getitem edges_gdf c = Inr s \<longrightarrow>
         getitem out c = Inr (map (\<lambda>v. case v of VList (x # xs) \<Rightarrow> x | _ \<Rightarrow> v) s))"
    by blast
next
  obtain out where out: "streets_gdf (graph_to_gdfs scenario_graph) = Inr out"
    using streets_gdf_total by blast
  have cells: "getitem out ''highway'' = Inr [VStr ''residential'', VStr ''primary'', VNull]"
    using out by (auto simp: scenario_streets getitem_def)
  have props: "map (\<lambda>f. map_of (properties f) ''highway'') (features out) =
        [Some (VStr ''residential''), Some (VStr ''primary''), Some VNull]"
    by (simp add: scenario_features [OF out])
  show "\<exists>out. streets_gdf (graph_to_gdfs scenario_graph) = Inr out \<and>
      getitem out ''highway'' = Inr [VStr ''residential'', VStr ''primary'', VNull] \<and>
      map (\<lambda>f. map_of (properties f) ''highway'') (features out) =
        [Some (VStr ''residential''), Some (VStr ''primary''), Some VNull]"
    by (rule exI [of _ out]) (intro conjI out cells props)
qed

theorem flatten_first_element_witness:
  "\<exists>out. streets_gdf (graph_to_gdfs scenario_graph) = Inr out \<and>
     ''highway'' \<in> set (columns out) \<and>
     getitem (graph_to_gdfs scenario_graph) ''highway'' =
       Inr [VList [VStr ''residential'', VStr ''tertiary''], VStr ''primary'', VNull] \<and>
     getitem out ''highway'' = Inr [VStr ''residential'', VStr ''primary'', VNull]"
proof -
  from flatten_first_element [of "graph_to_gdfs scenario_graph", THEN conjunct1]
  obtain out where o: "streets_gdf (graph_to_gdfs scenario_graph) = Inr out \<and>
      (\<forall>c s. c \<in> set (columns out) \<and> c \<noteq> ''geometry'' \<and>
         getitem (graph_to_gdfs scenario_graph) c = Inr s \<longrightarrow>
         getitem out c = Inr (map (\<lambda>v. case v of VList (x # xs) \<Rightarrow> x | _ \<Rightarrow> v) s))" ..
  then have out: "streets_gdf (graph_to_gdfs scenario_graph) = Inr out" ..
  have all: "getitem out c = Inr (map (\<lambda>v. case v of VList (x # xs) \<Rightarrow> x | _ \<Rightarrow> v) s)"
    if "c \<in> set (columns out)" "c \<noteq> ''geometry''"
      "getitem (graph_to_gdfs scenario_graph) c = Inr s" for c s
    using o [THEN conjunct2, rule_format, of c s] that by simp
  have raw: "getitem (graph_to_gdfs scenario_graph) ''highway'' =
       Inr [VList [VStr ''residential'', VStr ''tertiary''], VStr ''primary'', VNull]"
    by (simp add: scenario_edge_table getitem_def)
  have mem: "''highway'' \<in> set (columns out)"
    using out by (auto simp: scenario_streets columns_def)
  have "getitem out ''highway'' = Inr [VStr ''residential'', VStr ''primary'', VNull]"
    using all [OF mem _ raw] by simp
  with out mem raw show ?thesis by blast
qed

text \<open>
  Claim C2 as stated fails: an edge whose road class is the empty list keeps the empty
  list through flattening; the cell is not turned into the missing value, and the
  feature handed to the writer carries the empty list.
\<close>

theorem empty_list_not_normalized:
  "getitem (graph_to_gdfs empty_tag_graph) ''highway'' = Inr [VList []] \<and>
   streets_gdf (graph_to_gdfs empty_tag_graph) =
     Inr \<lparr>index = [Row 0],
          cols = [(''geometry'', [VGeom [(1, 1), (2, 2)]]), (''highway'', [VList []])]\<rparr> \<and>
   getitem \<lparr>index = [Row 0],
            cols = [(''geometry'', [VGeom [(1, 1), (2, 2)]]), (''highway'', [VList []])]\<rparr>
     ''highway'' \<noteq> Inr [VNull] \<and>
   map properties
     (features \<lparr>index = [Row 0],
                cols = [(''geometry'', [VGeom [(1, 1), (2, 2)]]), (''highway'', [VList []])]\<rparr>) =
     [[(''highway'', VList [])]]"
  using empty_tag_streets empty_tag_features [OF empty_tag_streets]
  by (simp add: empty_tag_edge_table getitem_def)

text \<open>
  Claim C2, amended.  In every non-geometry column and every row, a cell whose fetched
  value is the empty list is left as it is by the flattening step (the guard
  \<^verbatim>\<open>len(v) > 0\<close> of the lambda sends it to the \<^verbatim>\<open>else\<close> branch); a cell
  that holds a non-empty list is replaced by the first element of the list, and any
  other cell is left as it is.
\<close>

theorem empty_list_unchanged:
  "\<exists>out. streets_gdf edges_gdf = Inr out \<and>
     (\<forall>c s. c \<in> set (columns out) \<and> c \<noteq> ''geometry'' \<and> getitem edges_gdf c = Inr s \<longrightarrow>
        (\<exists>s'. getitem out c = Inr s' \<and> length s' = length s \<and>
           (\<forall>i < length s.
              (s ! i = VList [] \<longrightarrow> s' ! i = VList []) \<and>
              (\<forall>x xs. s ! i = VList (x # xs) \<longrightarrow> s' ! i = x) \<and>
              (\<not> isinstance_list (s ! i) \<longrightarrow> s' ! i = s ! i))))"
proof -
  obtain out where out: "streets_gdf edges_gdf = Inr out"
    using streets_gdf_total by blast
  show ?thesis
  proof (intro exI [of _ out] conjI allI impI)
    show "streets_gdf edges_gdf = Inr out" by (rule out)
  next
    fix c s
    assume a: "c \<in> set (columns out) \<and> c \<noteq> ''geometry'' \<and> getitem edges_gdf c = Inr s"
    from a have "c \<in> set (columns out)" "c \<noteq> ''geometry''" "getitem edges_gdf c = Inr s"
      by simp_all
    then show "\<exists>s'. getitem out c = Inr s' \<and> length s' = length s \<and>
           (\<forall>i < length s.
              (s ! i = VList [] \<longrightarrow> s' ! i = VList []) \<and>
              (\<forall>x xs. s ! i = VList (x # xs) \<longrightarrow> s' ! i = x) \<and>
              (\<not> isinstance_list (s ! i) \<longrightarrow> s' ! i = s ! i))"
      by (rule flattened_cells [OF out])
  qed
qed

theorem empty_list_unchanged_witness:
  "\<exists>out1 out2.
     streets_gdf (graph_to_gdfs empty_tag_graph) = Inr out1 \<and>
     getitem (graph_to_gdfs empty_tag_graph) ''highway'' = Inr [VList []] \<and>
     getitem out1 ''highway'' = Inr [VList []] \<and>
     streets_gdf (graph_to_gdfs scenario_graph) = Inr out2 \<and>
     getitem (graph_to_gdfs scenario_graph) ''highway'' =
       Inr [VList [VStr ''residential'', VStr ''tertiary''], VStr ''primary'', VNull] \<and>
     getitem out2 ''highway'' = Inr [VStr ''residential'', VStr ''primary'', VNull]"
proof -
  let ?e = "[VList []]"
  let ?s = "[VList [VStr ''residential'', VStr ''tertiary''], VStr ''primary'', VNull]"
  from empty_list_unchanged [of "graph_to_gdfs empty_tag_graph"]
  obtain out1 where o1: "streets_gdf (graph_to_gdfs empty_tag_graph) = Inr out1 \<and>
     (\<forall>c s. c \<in> set (columns out1) \<and> c \<noteq> ''geometry'' \<and>
        getitem (graph_to_gdfs empty_tag_graph) c = Inr s \<longrightarrow>
        (\<exists>s'. getitem out1 c = Inr s' \<and> length s' = length s \<and>
           (\<forall>i < length s.
              (s ! i = VList [] \<longrightarrow> s' ! i = VList []) \<and>
              (\<forall>x xs. s ! i = VList (x # xs) \<longrightarrow> s' ! i = x) \<and>
              (\<not> isinstance_list (s ! i) \<longrightarrow> s' ! i = s ! i))))" ..
  then have out1: "streets_gdf (graph_to_gdfs empty_tag_graph) = Inr out1" ..
  have raw1: "getitem (graph_to_gdfs empty_tag_graph) ''highway'' = Inr ?e"
    by (simp add: empty_tag_edge_table getitem_def)
  have mem1: "''highway'' \<in> set (columns out1)"
    using out1 by (auto simp: empty_tag_streets columns_def)
  have pre1: "''highway'' \<in> set (columns out1) \<and> ''highway'' \<noteq> ''geometry'' \<and>
        getitem (graph_to_gdfs empty_tag_graph) ''highway'' = Inr ?e"
    using mem1 raw1 by simp
  from o1 [THEN conjunct2, rule_format, OF pre1]
  obtain s1 where s1: "getitem out1 ''highway'' = Inr s1" and l1: "length s1 = length ?e"
    and cells1: "\<forall>i < length ?e.
              (?e ! i = VList [] \<longrightarrow> s1 ! i = VList []) \<and>
              (\<forall>x xs. ?e ! i = VList (x # xs) \<longrightarrow> s1 ! i = x) \<and>
              (\<not> isinstance_list (?e ! i) \<longrightarrow> s1 ! i = ?e ! i)"
    by (elim exE conjE)
  from cells1 [rule_format, of 0] have "s1 ! 0 = VList []" by simp
  with l1 have "s1 = [VList []]"
    by (cases s1) auto
  with s1 have g1: "getitem out1 ''highway'' = Inr [VList []]" by simp
  from empty_list_unchanged [of "graph_to_gdfs scenario_graph"]
  obtain out2 where o2: "streets_gdf (graph_to_gdfs scenario_graph) = Inr out2 \<and>
     (\<forall>c s. c \<in> set (columns out2) \<and> c \<noteq> ''geometry'' \<and>
        getitem (graph_to_gdfs scenario_graph) c = Inr s \<longrightarrow>
        (\<exists>s'. getitem out2 c = Inr s' \<and> length s' = length s \<and>
           (\<forall>i < length s.
              (s ! i = VList [] \<longrightarrow> s' ! i = VList []) \<and>
              (\<forall>x xs. s ! i = VList (x # xs) \<longrightarrow> s' ! i = x) \<and>
              (\<not> isinstance_list (s ! i) \<longrightarrow> s' ! i = s ! i))))" ..
  then have out2: "streets_gdf (graph_to_gdfs scenario_graph) = Inr out2" ..
  have raw2: "getitem (graph_to_gdfs scenario_graph) ''highway'' = Inr ?s"
    by (simp add: scenario_edge_table getitem_def)
  have mem2: "''highway'' \<in> set (columns out2)"
    using out2 by (auto simp: scenario_streets columns_def)
  have pre2: "''highway'' \<in> set (columns out2) \<and> ''highway'' \<noteq> ''geometry'' \<and>
        getitem (graph_to_gdfs scenario_graph) ''highway'' = Inr ?s"
    using mem2 raw2 by simp
  from o2 [THEN conjunct2, rule_format, OF pre2]
  obtain s2 where s2: "getitem out2 ''highway'' = Inr s2" and l2: "length s2 = length ?s"
    and cells: "\<forall>i < length ?s.
              (?s ! i = VList [] \<longrightarrow> s2 ! i = VList []) \<and>
              (\<forall>x xs. ?s ! i = VList (x # xs) \<longrightarrow> s2 ! i = x) \<and>
              (\<not> isinstance_list (?s ! i) \<longrightarrow> s2 ! i = ?s ! i)"
    by (elim exE conjE)
  from cells [rule_format, of 0] have c0: "s2 ! 0 = VStr ''residential''" by simp
  from cells [rule_format, of 1] have c1: "s2 ! 1 = VStr ''primary''" by simp
  from cells [rule_format, of 2] have c2: "s2 ! 2 = VNull" by simp
  have "s2 = [VStr ''residential'', VStr ''primary'', VNull]"
  proof (rule nth_equalityI)
    show "length s2 = length [VStr ''residential'', VStr ''primary'', VNull]"
      using l2 by simp
  next
    fix i assume "i < length s2"
    then have "i = 0 \<or> i = 1 \<or> i = 2" using l2 by auto
    then show "s2 ! i = [VStr ''residential'', VStr ''primary'', VNull] ! i"
      using c0 c1 c2 by auto
  qed
  with s2 have g2: "getitem out2 ''highway'' = Inr [VStr ''residential'', VStr ''primary'', VNull]"
    by simp
  show ?thesis
    by (rule exI [of _ out1], rule exI [of _ out2]) (intro conjI out1 raw1 g1 out2 raw2 g2)
qed

end
